theory Spec2Isabelle
  imports Main "HOL-Library.Sublist" "HOL-Library.AList"
begin

section \<open>Paths and route derivation\<close>

text \<open>
  Embedding of \<^verbatim>\<open>packages/form-actions-nuxt/src/module.ts\<close>. Paths and routes are
  JavaScript strings; they are modelled as \<^typ>\<open>string\<close>, one \<^typ>\<open>char\<close> per
  code unit below 256 (so the two line separators U+2028 and U+2029 do not occur).
\<close>

type_synonym path = string

datatype error =
    RouteParseError string
  | ExtractionError
  | IOError path

text \<open>\<^verbatim>\<open>path.includes(sub)\<close>: the substring test of JavaScript.\<close>

fun str_includes :: "string \<Rightarrow> string \<Rightarrow> bool" where
  "str_includes sub [] = (sub = [])"
| "str_includes sub (c # cs) = (prefix sub (c # cs) \<or> str_includes sub cs)"

text \<open>
  The dot of a JavaScript regular expression (no \<^verbatim>\<open>s\<close> flag) matches every
  character but a line terminator.
\<close>

definition is_line_terminator :: "char \<Rightarrow> bool" where
  "is_line_terminator c = (c = CHR 0x0A \<or> c = CHR 0x0D)"

text \<open>
  \<^verbatim>\<open>const actionRegex = /actions\/(.*?)\.ts/\<close>.
  \<open>lazy_group acc s\<close> matches \<^verbatim>\<open>(.*?)\.ts\<close> at the head of \<open>s\<close>: the lazy
  quantifier takes the fewest characters after which \<^verbatim>\<open>.ts\<close> follows; \<open>acc\<close>
  holds the characters taken so far, newest first.
\<close>

fun lazy_group :: "string \<Rightarrow> string \<Rightarrow> string option" where
  "lazy_group acc [] = None"
| "lazy_group acc (c # cs) =
     (if prefix ''.ts'' (c # cs) then Some (rev acc)
      else if is_line_terminator c then None
      else lazy_group (c # acc) cs)"

text \<open>
  \<^verbatim>\<open>actionRegex.exec(actionPath)?.[1]\<close>: the regular expression is not anchored,
  so the match is tried at every position from the left; the result is capture
  group 1 of the leftmost match, or \<open>None\<close> when there is none.
\<close>

fun actionRegex_exec :: "string \<Rightarrow> string option" where
  "actionRegex_exec [] = None"
| "actionRegex_exec (c # cs) =
     (if prefix ''actions/'' (c # cs) then
        (case lazy_group [] (drop 8 (c # cs)) of
           Some g \<Rightarrow> Some g
         | None \<Rightarrow> actionRegex_exec cs)
      else actionRegex_exec cs)"

text \<open>
  \<^verbatim>\<open>if (!actionRoute) throw new Error(`Could not parse action route from ...`)\<close>:
  an absent match and an empty capture are both falsy.
\<close>

definition getActionRoute :: "path \<Rightarrow> error + string" where
  "getActionRoute actionPath =
     (case actionRegex_exec actionPath of
        None \<Rightarrow> Inl (RouteParseError actionPath)
      | Some actionRoute \<Rightarrow>
          if actionRoute = [] then Inl (RouteParseError actionPath) else Inr actionRoute)"

text \<open>
  Modelled from the spec: the constant \<^verbatim>\<open>NITRO_LOADER_PREFIX\<close> is imported from
  \<^verbatim>\<open>./runtime/utils\<close>, which is not among the sources; the specification's
  end-to-end example registers \<^verbatim>\<open>GET /__loaders__/profile\<close>.
\<close>

definition NITRO_LOADER_PREFIX :: string where
  "NITRO_LOADER_PREFIX = ''__loaders__''"

definition getLoaderRoute :: "string \<Rightarrow> string" where
  "getLoaderRoute route = ''/'' @ NITRO_LOADER_PREFIX @ ''/'' @ route"

text \<open>
  \<^verbatim>\<open>resolve(nuxt.options.srcDir, "server/actions")\<close> and
  \<^verbatim>\<open>resolve(actionDirectoryPath, "../.loader")\<close>, for a source directory given as a
  normalised absolute path without a trailing slash.
\<close>

definition actionDirectoryPath :: "path \<Rightarrow> path" where
  "actionDirectoryPath srcDir = srcDir @ ''/server/actions''"

definition loaderDirectory :: "path \<Rightarrow> path" where
  "loaderDirectory srcDir = srcDir @ ''/server/.loader''"

section \<open>The file system\<close>

text \<open>
  The module reads and writes files through \<^verbatim>\<open>node:fs\<close>. A directory is a list of
  named entries in the order \<^verbatim>\<open>readdir\<close> returns them. A path is resolved from the
  root of the tree, segment by segment; paths are normalised (no \<^verbatim>\<open>.\<close> or
  \<^verbatim>\<open>..\<close> segment), as the host hands them over.
\<close>

datatype entry = File string | Dir "(string \<times> entry) list"

fun segments :: "string \<Rightarrow> string \<Rightarrow> string list" where
  "segments acc [] = (if acc = [] then [] else [rev acc])"
| "segments acc (c # cs) =
     (if c = CHR ''/'' then
        (if acc = [] then segments [] cs else rev acc # segments [] cs)
      else segments (c # acc) cs)"

definition split_path :: "path \<Rightarrow> string list" where
  "split_path p = segments [] p"

fun lookup_entry :: "string list \<Rightarrow> entry \<Rightarrow> entry option" where
  "lookup_entry [] e = Some e"
| "lookup_entry (s # ss) e =
     (case e of
        File _ \<Rightarrow> None
      | Dir es \<Rightarrow>
          (case map_of es s of None \<Rightarrow> None | Some e' \<Rightarrow> lookup_entry ss e'))"

text \<open>
  \<open>update_dir ss f e\<close> rewrites the listing of the directory at \<open>ss\<close> with \<open>f\<close>;
  it fails when \<open>ss\<close> does not lead to a directory or \<open>f\<close> refuses.
\<close>

fun update_dir ::
  "string list \<Rightarrow> ((string \<times> entry) list \<Rightarrow> (string \<times> entry) list option) \<Rightarrow> entry \<Rightarrow> entry option"
where
  "update_dir [] f e = (case e of File _ \<Rightarrow> None | Dir es \<Rightarrow> map_option Dir (f es))"
| "update_dir (s # ss) f e =
     (case e of
        File _ \<Rightarrow> None
      | Dir es \<Rightarrow>
          (case map_of es s of
             None \<Rightarrow> None
           | Some e' \<Rightarrow> map_option (\<lambda>e''. Dir (AList.update s e'' es)) (update_dir ss f e')))"

definition existsSync :: "entry \<Rightarrow> path \<Rightarrow> bool" where
  "existsSync root p = (lookup_entry (split_path p) root \<noteq> None)"

definition readFile :: "entry \<Rightarrow> path \<Rightarrow> error + string" where
  "readFile root p =
     (case lookup_entry (split_path p) root of
        Some (File c) \<Rightarrow> Inr c
      | _ \<Rightarrow> Inl (IOError p))"

text \<open>
  \<open>put_file name g\<close> stores a file under \<open>name\<close> in a listing, its content computed
  by \<open>g\<close> from the old content, if any. A directory of that name is an error (EISDIR).
\<close>

definition put_file ::
  "string \<Rightarrow> (string option \<Rightarrow> string) \<Rightarrow> (string \<times> entry) list \<Rightarrow> (string \<times> entry) list option"
where
  "put_file name g es =
     (case map_of es name of
        None \<Rightarrow> Some (AList.update name (File (g None)) es)
      | Some (File old) \<Rightarrow> Some (AList.update name (File (g (Some old))) es)
      | Some (Dir _) \<Rightarrow> None)"

definition change_dir ::
  "entry \<Rightarrow> path \<Rightarrow> (string \<Rightarrow> (string \<times> entry) list \<Rightarrow> (string \<times> entry) list option) \<Rightarrow> error + entry"
where
  "change_dir root p f =
     (case split_path p of
        [] \<Rightarrow> Inl (IOError p)
      | s # ss \<Rightarrow>
          (case update_dir (butlast (s # ss)) (f (last (s # ss))) root of
             None \<Rightarrow> Inl (IOError p)
           | Some root' \<Rightarrow> Inr root'))"

text \<open>
  \<^verbatim>\<open>fsp.writeFile\<close> truncates or creates the file, \<^verbatim>\<open>fsp.appendFile\<close> appends
  to it or creates it; neither creates a missing parent directory (ENOENT).
\<close>

definition writeFile :: "entry \<Rightarrow> path \<Rightarrow> string \<Rightarrow> error + entry" where
  "writeFile root p content = change_dir root p (\<lambda>name. put_file name (\<lambda>_. content))"

definition appendFile :: "entry \<Rightarrow> path \<Rightarrow> string \<Rightarrow> error + entry" where
  "appendFile root p content =
     change_dir root p
       (\<lambda>name. put_file name (\<lambda>old. case old of None \<Rightarrow> content | Some c \<Rightarrow> c @ content))"

text \<open>\<^verbatim>\<open>fsp.mkdir(p)\<close>, not recursive: the parent must exist, the name must be free.\<close>

definition mkdir :: "entry \<Rightarrow> path \<Rightarrow> error + entry" where
  "mkdir root p =
     change_dir root p
       (\<lambda>name es. case map_of es name of None \<Rightarrow> Some (es @ [(name, Dir [])]) | Some _ \<Rightarrow> None)"

text \<open>\<^verbatim>\<open>fsp.rm(p, { recursive: true })\<close>, without \<^verbatim>\<open>force\<close>: the path must exist.\<close>

definition rm_recursive :: "entry \<Rightarrow> path \<Rightarrow> error + entry" where
  "rm_recursive root p =
     change_dir root p
       (\<lambda>name es. case map_of es name of None \<Rightarrow> None | Some _ \<Rightarrow> Some (AList.delete name es))"

text \<open>
  \<^verbatim>\<open>walkFiles\<close>: depth first, directories traversed and not yielded;
  \<^verbatim>\<open>pathResolve(dir, entry.name)\<close> joins with a slash. The generator is consumed
  by a loop that writes only below the loader directory, never below the directory
  being walked, so the sequence it yields is the one computed up front.
\<close>

fun walk_entries :: "path \<Rightarrow> (string \<times> entry) list \<Rightarrow> path list" where
  "walk_entries dir [] = []"
| "walk_entries dir ((name, File _) # es) = (dir @ ''/'' @ name) # walk_entries dir es"
| "walk_entries dir ((name, Dir ds) # es) =
     walk_entries (dir @ ''/'' @ name) ds @ walk_entries dir es"

definition walkFiles :: "entry \<Rightarrow> path \<Rightarrow> error + path list" where
  "walkFiles root dir =
     (case lookup_entry (split_path dir) root of
        Some (Dir es) \<Rightarrow> Inr (walk_entries dir es)
      | _ \<Rightarrow> Inl (IOError dir))"

section \<open>Parsed modules, the rewriting engine and the kit\<close>

text \<open>
  \<^verbatim>\<open>loadFile\<close> and \<^verbatim>\<open>generateCode\<close> (magicast) and \<^verbatim>\<open>transform\<close> (esbuild)
  are libraries, not code of this module: they are parameters of the model. A parsed
  module exposes its named exports, here a list of names with the exported
  expressions, and the rest of its text; an export counts as present when the
  library returns a truthy proxy for it. \<open>None\<close> stands for a library call that
  throws.

  Two functions of the kit are parameters as well. \<open>normalize\<close> is the path
  normalisation that \<^verbatim>\<open>addServerHandler\<close> applies to the handler path it stores.
  \<open>updateTemplates\<close> tells whether the regeneration of the loader declarations, which
  renders the loader entries it is given, is rejected, and with which error.
\<close>

type_synonym expr = string

record module_file =
  exports :: "(string \<times> expr) list"
  body :: string

record loader_entry =
  name :: string
  filePath :: path
  url :: string

record engine =
  parseModule :: "string \<Rightarrow> module_file option"
  generateCode :: "module_file \<Rightarrow> string option"
  transform :: "string \<Rightarrow> string option"
  normalize :: "path \<Rightarrow> path"
  updateTemplates :: "loader_entry list \<Rightarrow> error option"

definition loadFile :: "engine \<Rightarrow> entry \<Rightarrow> path \<Rightarrow> error + module_file" where
  "loadFile eng root p =
     (case readFile root p of
        Inl e \<Rightarrow> Inl e
      | Inr src \<Rightarrow>
          (case parseModule eng src of None \<Rightarrow> Inl ExtractionError | Some m \<Rightarrow> Inr m))"

definition GENERATED_TEXT :: string where
  "GENERATED_TEXT =
     ''/** This file is auto-generated by the form-actions module. /!'' @ [CHR 0x5C] @
     '' Do not modify it manually ! */ '' @ [CHR 0x0A]"

text \<open>
  \<^verbatim>\<open>file.exports.default = file.exports.loader; delete file.exports.loader\<close>.
  The callers reach it only with a loader export present; without one the
  assignment stores \<^verbatim>\<open>undefined\<close>, which leaves no default export.
\<close>

definition promote_loader :: "module_file \<Rightarrow> module_file" where
  "promote_loader file =
     file\<lparr>exports :=
       AList.delete ''loader''
         (case map_of (exports file) ''loader'' of
            None \<Rightarrow> AList.delete ''default'' (exports file)
          | Some v \<Rightarrow> AList.update ''default'' v (exports file))\<rparr>"

text \<open>
  \<^verbatim>\<open>writeLoader\<close> returns the path of the generated file. An exception leaves the
  file system as it was when it was thrown.
\<close>

definition writeLoader ::
  "engine \<Rightarrow> module_file \<Rightarrow> path \<Rightarrow> string \<Rightarrow> entry \<Rightarrow> (error \<times> entry) + (path \<times> entry)"
where
  "writeLoader eng file loaderDir actionRoute root =
     (case generateCode eng (promote_loader file) of
        None \<Rightarrow> Inl (ExtractionError, root)
      | Some code \<Rightarrow>
          (case transform eng code of
             None \<Rightarrow> Inl (ExtractionError, root)
           | Some shaked \<Rightarrow>
               (let handler = loaderDir @ ''/'' @ actionRoute @ ''.ts'' in
                case writeFile root handler GENERATED_TEXT of
                  Inl e \<Rightarrow> Inl (e, root)
                | Inr root1 \<Rightarrow>
                    (case appendFile root1 handler shaked of
                       Inl e \<Rightarrow> Inl (e, root1)
                     | Inr root2 \<Rightarrow> Inr (handler, root2)))))"

section \<open>The registries\<close>

datatype http_verb = GET | POST

text \<open>
  A handler registration; \<open>http_method\<close> is its property \<^verbatim>\<open>method\<close>. A property
  the source leaves out is \<open>None\<close> for the method
  and \<open>False\<close> for the flags \<^verbatim>\<open>lazy\<close> and \<^verbatim>\<open>formAction\<close>.
\<close>

record registration =
  http_method :: "http_verb option"
  route :: string
  handler :: path
  lazy :: bool
  formAction :: bool

datatype watch_event = Add | AddDir | Change | Unlink | UnlinkDir

text \<open>One constructor for each call of the logger, with the values it prints.\<close>

datatype log_entry =
    AddingModule
  | AddedModule
  | FormActionAdded string
  | LoaderAdded string string
  | LoaderTypeAdded string
  | LoadersInConfig "string list"
  | Changed watch_event path
  | LoaderRemoved string "string list"
  | HandlerAddedNew string
  | LoaderUpdated path
  | LoaderAddedNew string "string list"
  | ErrorWhileHandling watch_event error

text \<open>
  The state the hooks share: the file system, \<^verbatim>\<open>nitro.handlers\<close>,
  \<^verbatim>\<open>nuxt.options.serverHandlers\<close>, the published list
  \<^verbatim>\<open>runtimeConfig.public.__serverLoaders__\<close>, \<^verbatim>\<open>loaderMap\<close> (a JavaScript
  \<^verbatim>\<open>Map\<close>: insertion order, a key set again keeps its place), the file names
  passed to \<^verbatim>\<open>addTemplate\<close>, the number of \<^verbatim>\<open>updateTemplates\<close> requests for the
  loader declarations, the rejections of promises that nothing awaits, and the log.
\<close>

record state =
  fs :: entry
  nitro_handlers :: "registration list"
  serverHandlers :: "registration list"
  serverLoaders :: "string list"
  loaderMap :: "(string \<times> loader_entry) list"
  templates :: "string list"
  templateUpdates :: nat
  unhandledRejections :: "error list"
  logs :: "log_entry list"

definition loaderTypesFilename :: string where
  "loaderTypesFilename = ''types/form-action-loaders.d.ts''"

text \<open>
  The declaration template, \<^verbatim>\<open>getContents\<close> of \<^verbatim>\<open>addLoaderTypes\<close>, renders
  \<^verbatim>\<open>Array.from(loaderMap.values())\<close> each time the host generates it. Its two union
  lines are modelled; the text around them comes from \<^verbatim>\<open>./runtime/utils\<close>.
\<close>

fun join :: "string \<Rightarrow> string list \<Rightarrow> string" where
  "join sep [] = []"
| "join sep [x] = x"
| "join sep (x # y # ys) = x @ sep @ join sep (y # ys)"

definition quoted :: "string \<Rightarrow> string" where
  "quoted s = [CHR 0x22] @ s @ [CHR 0x22]"

definition loaders :: "state \<Rightarrow> loader_entry list" where
  "loaders st = map snd (loaderMap st)"

definition LoaderUrl_type :: "loader_entry list \<Rightarrow> string" where
  "LoaderUrl_type l = ''type LoaderUrl = '' @ join '' | '' (map (\<lambda>l. quoted (url l)) l)"

definition LoaderName_type :: "loader_entry list \<Rightarrow> string" where
  "LoaderName_type l = ''type LoaderName = '' @ join '' | '' (map (\<lambda>l. quoted (name l)) l)"

definition addLoaderTypes :: "state \<Rightarrow> state" where
  "addLoaderTypes st = st\<lparr>templates := templates st @ [loaderTypesFilename]\<rparr>"

section \<open>The full scan: the second \<^verbatim>\<open>nitro:config\<close> hook\<close>

text \<open>
  The body of the \<^verbatim>\<open>for await\<close> loop for one walked file. An exception carries
  the state reached when it was thrown.
\<close>

definition scan_action ::
  "engine \<Rightarrow> path \<Rightarrow> path \<Rightarrow> state \<Rightarrow> (error \<times> state) + state"
where
  "scan_action eng loaderDir actionPath st =
     (case getActionRoute actionPath of
        Inl e \<Rightarrow> Inl (e, st)
      | Inr actionRoute \<Rightarrow>
          (case loadFile eng (fs st) actionPath of
             Inl e \<Rightarrow> Inl (e, st)
           | Inr file \<Rightarrow>
               (let st1 =
                  (if map_of (exports file) ''default'' \<noteq> None then
                     st\<lparr>nitro_handlers := nitro_handlers st @
                          [\<lparr>http_method = None, route = ''/'' @ actionRoute, handler = actionPath,
                            lazy = False, formAction = True\<rparr>],
                        logs := logs st @ [FormActionAdded (''/'' @ actionRoute)]\<rparr>
                   else st)
                in
                if map_of (exports file) ''loader'' \<noteq> None then
                  (case writeLoader eng file loaderDir actionRoute (fs st1) of
                     Inl (e, root) \<Rightarrow> Inl (e, st1\<lparr>fs := root\<rparr>)
                   | Inr (h, root) \<Rightarrow>
                       Inr (st1\<lparr>fs := root,
                            nitro_handlers := nitro_handlers st1 @
                              [\<lparr>http_method = Some GET, route = getLoaderRoute actionRoute, handler = h,
                                lazy = True, formAction = False\<rparr>],
                            serverLoaders := serverLoaders st1 @ [actionRoute],
                            loaderMap := AList.update actionRoute
                              \<lparr>name = actionRoute, filePath = h, url = getLoaderRoute actionRoute\<rparr>
                              (loaderMap st1),
                            logs := logs st1 @
                              [LoaderAdded actionRoute (getLoaderRoute actionRoute),
                               LoaderTypeAdded actionRoute]\<rparr>))
                else Inr st1)))"

fun scan_actions ::
  "engine \<Rightarrow> path \<Rightarrow> path list \<Rightarrow> state \<Rightarrow> (error \<times> state) + state"
where
  "scan_actions eng loaderDir [] st = Inr st"
| "scan_actions eng loaderDir (actionPath # rest) st =
     (case scan_action eng loaderDir actionPath st of
        Inl x \<Rightarrow> Inl x
      | Inr st' \<Rightarrow> scan_actions eng loaderDir rest st')"

text \<open>
  The loader directory is removed if it exists and made again with its
  \<^verbatim>\<open>.gitignore\<close>; then every walked file is scanned and the declaration template
  is added.
\<close>

definition reset_loaderDirectory :: "path \<Rightarrow> entry \<Rightarrow> (error \<times> entry) + entry" where
  "reset_loaderDirectory loaderDir root =
     (case (if existsSync root loaderDir then rm_recursive root loaderDir else Inr root) of
        Inl e \<Rightarrow> Inl (e, root)
      | Inr root1 \<Rightarrow>
          (case mkdir root1 loaderDir of
             Inl e \<Rightarrow> Inl (e, root1)
           | Inr root2 \<Rightarrow>
               (case writeFile root2 (loaderDir @ ''/.gitignore'') ''*'' of
                  Inl e \<Rightarrow> Inl (e, root2)
                | Inr root3 \<Rightarrow> Inr root3)))"

definition nitro_config :: "engine \<Rightarrow> path \<Rightarrow> state \<Rightarrow> (error \<times> state) + state" where
  "nitro_config eng srcDir st =
     (case reset_loaderDirectory (loaderDirectory srcDir) (fs st) of
        Inl (e, root) \<Rightarrow> Inl (e, st\<lparr>fs := root\<rparr>)
      | Inr root \<Rightarrow>
          (case walkFiles root (actionDirectoryPath srcDir) of
             Inl e \<Rightarrow> Inl (e, st\<lparr>fs := root\<rparr>)
           | Inr actionPaths \<Rightarrow>
               (case scan_actions eng (loaderDirectory srcDir) actionPaths (st\<lparr>fs := root\<rparr>) of
                  Inl x \<Rightarrow> Inl x
                | Inr st' \<Rightarrow>
                    Inr ((addLoaderTypes st')
                          \<lparr>logs := logs st' @ [LoadersInConfig (serverLoaders st')]\<rparr>))))"

section \<open>Incremental updates: the \<^verbatim>\<open>builder:watch\<close> hook\<close>

definition removeLoaderFromServerLoader :: "string \<Rightarrow> state \<Rightarrow> state" where
  "removeLoaderFromServerLoader actionRoute st =
     (if actionRoute \<in> set (serverLoaders st) then
        (let remaining = filter (\<lambda>route. route \<noteq> actionRoute) (serverLoaders st) in
         st\<lparr>serverLoaders := remaining,
            logs := logs st @ [LoaderRemoved actionRoute remaining]\<rparr>)
      else st)"

text \<open>
  \<^verbatim>\<open>addServerHandler\<close> of the kit pushes onto \<^verbatim>\<open>nuxt.options.serverHandlers\<close>
  the handler with its path normalised; a method given by the caller is kept.
\<close>

definition addServerHandler :: "engine \<Rightarrow> registration \<Rightarrow> state \<Rightarrow> state" where
  "addServerHandler eng h st =
     st\<lparr>serverHandlers := serverHandlers st @ [h\<lparr>handler := normalize eng (handler h)\<rparr>]\<rparr>"

text \<open>
  \<^verbatim>\<open>updateTemplates({ filter: ... })\<close> is called without \<^verbatim>\<open>await\<close>: the hook
  goes on at once, and the declarations are rendered later from the loader entries
  the hook leaves. When that promise is rejected, the rejection reaches neither the
  \<^verbatim>\<open>catch\<close> clause nor the log.
\<close>

definition settle_updateTemplates :: "engine \<Rightarrow> state \<Rightarrow> state" where
  "settle_updateTemplates eng st =
     (case updateTemplates eng (loaders st) of
        None \<Rightarrow> st
      | Some e \<Rightarrow> st\<lparr>unhandledRejections := unhandledRejections st @ [e]\<rparr>)"

text \<open>The body of the \<^verbatim>\<open>try\<close> block.\<close>

definition watch_try ::
  "engine \<Rightarrow> path \<Rightarrow> watch_event \<Rightarrow> path \<Rightarrow> state \<Rightarrow> (error \<times> state) + state"
where
  "watch_try eng srcDir event p st =
     (if str_includes ''server/actions'' p then
        (let st0 = st\<lparr>logs := logs st @ [Changed event p]\<rparr> in
         case getActionRoute p of
           Inl e \<Rightarrow> Inl (e, st0)
         | Inr actionRoute \<Rightarrow>
             if \<not> existsSync (fs st0) p then Inr (removeLoaderFromServerLoader actionRoute st0)
             else
               (case loadFile eng (fs st0) p of
                  Inl e \<Rightarrow> Inl (e, st0)
                | Inr file \<Rightarrow>
                    (let hasHandler = list_ex (\<lambda>h. handler h = p) (serverHandlers st0);
                         st1 =
                           (if \<not> hasHandler then
                              addServerHandler eng
                                \<lparr>http_method = Some POST, route = ''/'' @ actionRoute, handler = p,
                                  lazy = True, formAction = False\<rparr>
                                (st0\<lparr>logs := logs st0 @ [HandlerAddedNew actionRoute]\<rparr>)
                            else st0)
                     in
                     if map_of (exports file) ''loader'' \<noteq> None then
                       (case writeLoader eng file (loaderDirectory srcDir) actionRoute (fs st1) of
                          Inl (e, root) \<Rightarrow> Inl (e, st1\<lparr>fs := root\<rparr>)
                        | Inr (h, root) \<Rightarrow>
                            (let st2 = st1\<lparr>fs := root,
                                           templateUpdates := Suc (templateUpdates st1),
                                           logs := logs st1 @ [LoaderUpdated h]\<rparr>
                             in
                             if actionRoute \<notin> set (serverLoaders st2) then
                               Inr (settle_updateTemplates eng
                                     (st2\<lparr>loaderMap := AList.update actionRoute
                                          \<lparr>name = actionRoute, filePath = h,
                                            url = getLoaderRoute actionRoute\<rparr>
                                          (loaderMap st2),
                                        serverLoaders := serverLoaders st2 @ [actionRoute],
                                        logs := logs st2 @
                                          [LoaderAddedNew actionRoute
                                             (serverLoaders st2 @ [actionRoute])]\<rparr>))
                             else Inr (settle_updateTemplates eng st2)))
                     else Inr (removeLoaderFromServerLoader actionRoute st1))))
      else Inr st)"

text \<open>The \<^verbatim>\<open>catch\<close> clause logs the error that the \<^verbatim>\<open>try\<close> block threw.\<close>

definition builder_watch :: "engine \<Rightarrow> path \<Rightarrow> watch_event \<Rightarrow> path \<Rightarrow> state \<Rightarrow> state" where
  "builder_watch eng srcDir event p st =
     (case watch_try eng srcDir event p st of
        Inr st' \<Rightarrow> st'
      | Inl (e, st') \<Rightarrow> st'\<lparr>logs := logs st' @ [ErrorWhileHandling event e]\<rparr>)"

section \<open>Runs of the pipeline\<close>

text \<open>
  \<^verbatim>\<open>setup\<close> makes the action directory if it is missing and starts with no loader:
  \<^verbatim>\<open>loaderMap = new Map()\<close>, \<^verbatim>\<open>__serverLoaders__ = []\<close>. The handler lists are
  the host's and may hold registrations of other modules.
\<close>

definition module_setup ::
  "path \<Rightarrow> entry \<Rightarrow> registration list \<Rightarrow> registration list \<Rightarrow> error + state"
where
  "module_setup srcDir root nitroHandlers hostHandlers =
     (case (if \<not> existsSync root (actionDirectoryPath srcDir)
            then mkdir root (actionDirectoryPath srcDir) else Inr root) of
        Inl e \<Rightarrow> Inl e
      | Inr root' \<Rightarrow>
          Inr \<lparr>fs = root', nitro_handlers = nitroHandlers, serverHandlers = hostHandlers,
               serverLoaders = [], loaderMap = [], templates = [''types/form-actions.d.ts''],
               templateUpdates = 0, unhandledRejections = [],
               logs = [AddingModule, AddedModule]\<rparr>)"

datatype hook_call = NitroConfig | BuilderWatch watch_event path | Edited entry

text \<open>
  The host calls the hooks one after the other; between two calls the files may be
  edited from outside (\<open>Edited root\<close>: the file system is now \<open>root\<close>). A full scan
  that throws fails the build: the run stops with the error and the state it reached.
\<close>

fun run :: "engine \<Rightarrow> path \<Rightarrow> hook_call list \<Rightarrow> state \<Rightarrow> (error \<times> state) + state" where
  "run eng srcDir [] st = Inr st"
| "run eng srcDir (NitroConfig # calls) st =
     (case nitro_config eng srcDir st of
        Inl x \<Rightarrow> Inl x
      | Inr st' \<Rightarrow> run eng srcDir calls st')"
| "run eng srcDir (BuilderWatch event p # calls) st =
     run eng srcDir calls (builder_watch eng srcDir event p st)"
| "run eng srcDir (Edited root # calls) st = run eng srcDir calls (st\<lparr>fs := root\<rparr>)"




text \<open>The state a run ends in, whether it stopped with an error or not.\<close>

definition reached :: "(error \<times> state) + state \<Rightarrow> state" where
  "reached r = (case r of Inl (e, st) \<Rightarrow> st | Inr st \<Rightarrow> st)"

section \<open>Example inputs\<close>

text \<open>
  A small stand-in for the parser, the printer and the dead-code pass, and a project
  tree with three action files, used to run the model on concrete inputs. The
  stand-in parses three sources: one with a primary export, one with a loader export,
  one with both; it prints the default export of a module and eliminates nothing.
  The example paths are in normal form already, and no regeneration is rejected.
\<close>

definition handler_only_module :: module_file where
  "handler_only_module = \<lparr>exports = [(''default'', ''handler'')], body = ''h''\<rparr>"

definition loader_only_module :: module_file where
  "loader_only_module = \<lparr>exports = [(''loader'', ''fetch'')], body = ''l''\<rparr>"

definition both_module :: module_file where
  "both_module =
     \<lparr>exports = [(''default'', ''handler''), (''loader'', ''fetch'')], body = ''h; l''\<rparr>"

definition demo_engine :: engine where
  "demo_engine =
     \<lparr>parseModule = (\<lambda>src.
        if src = ''export default h'' then Some handler_only_module
        else if src = ''export const loader = l'' then Some loader_only_module
        else if src = ''export default h; export const loader = l'' then Some both_module
        else None),
      generateCode = (\<lambda>m. case map_of (exports m) ''default'' of
                             None \<Rightarrow> Some [] | Some e \<Rightarrow> Some (''export default '' @ e)),
      transform = Some,
      normalize = (\<lambda>p. p),
      updateTemplates = (\<lambda>l. None)\<rparr>"


definition project_tree :: "(string \<times> entry) list \<Rightarrow> (string \<times> entry) list \<Rightarrow> entry" where
  "project_tree actions generated =
     Dir [(''proj'', Dir [(''server'', Dir [(''actions'', Dir actions), (''.loader'', Dir generated)])])]"

definition demo_actions :: "(string \<times> entry) list" where
  "demo_actions =
     [(''login.ts'', File ''export default h''),
      (''profile.ts'', File ''export const loader = l''),
      (''search.ts'', File ''export default h; export const loader = l'')]"

definition demo_generated :: "(string \<times> entry) list" where
  "demo_generated =
     [(''.gitignore'', File ''*''),
      (''profile.ts'', File (GENERATED_TEXT @ ''export default fetch'')),
      (''search.ts'', File (GENERATED_TEXT @ ''export default fetch''))]"

definition demo_fs :: entry where
  "demo_fs = Dir [(''proj'', Dir [(''server'', Dir [(''actions'', Dir demo_actions)])])]"

definition demo_state :: state where
  "demo_state = \<lparr>fs = demo_fs, nitro_handlers = [], serverHandlers = [],
               serverLoaders = [], loaderMap = [], templates = [''types/form-actions.d.ts''],
               templateUpdates = 0, unhandledRejections = [],
               logs = [AddingModule, AddedModule]\<rparr>"

text \<open>The state after the full scan of \<open>demo_state\<close> (lemma \<open>nitro_config_demo\<close>).\<close>

definition scanned_state :: state where
  "scanned_state =
     \<lparr>fs = project_tree demo_actions demo_generated,
      nitro_handlers =
        [\<lparr>http_method = None, route = ''/login'', handler = ''/proj/server/actions/login.ts'',
          lazy = False, formAction = True\<rparr>,
         \<lparr>http_method = Some GET, route = ''/__loaders__/profile'',
          handler = ''/proj/server/.loader/profile.ts'', lazy = True, formAction = False\<rparr>,
         \<lparr>http_method = None, route = ''/search'', handler = ''/proj/server/actions/search.ts'',
          lazy = False, formAction = True\<rparr>,
         \<lparr>http_method = Some GET, route = ''/__loaders__/search'',
          handler = ''/proj/server/.loader/search.ts'', lazy = True, formAction = False\<rparr>],
      serverHandlers = [],
      serverLoaders = [''profile'', ''search''],
      loaderMap =
        [(''profile'', \<lparr>name = ''profile'', filePath = ''/proj/server/.loader/profile.ts'',
                        url = ''/__loaders__/profile''\<rparr>),
         (''search'', \<lparr>name = ''search'', filePath = ''/proj/server/.loader/search.ts'',
                       url = ''/__loaders__/search''\<rparr>)],
      templates = [''types/form-actions.d.ts'', ''types/form-action-loaders.d.ts''],
      templateUpdates = 0,
      unhandledRejections = [],
      logs =
        [AddingModule, AddedModule, FormActionAdded ''/login'',
         LoaderAdded ''profile'' ''/__loaders__/profile'', LoaderTypeAdded ''profile'',
         FormActionAdded ''/search'',
         LoaderAdded ''search'' ''/__loaders__/search'', LoaderTypeAdded ''search'',
         LoadersInConfig [''profile'', ''search'']]\<rparr>"

text \<open>A project whose only action file lies in a subdirectory and exports a loader.\<close>

definition nested_fs :: entry where
  "nested_fs = Dir [(''proj'', Dir [(''server'', Dir [(''actions'', Dir
      [(''admin'', Dir [(''stats.ts'', File ''export const loader = l'')])])])])]"


text \<open>
  The scanned project after \<^verbatim>\<open>profile.ts\<close> was edited to export a primary handler
  and no loader, and after \<^verbatim>\<open>search.ts\<close> was deleted.
\<close>

definition profile_edited_fs :: entry where
  "profile_edited_fs =
     project_tree
       [(''login.ts'', File ''export default h''),
        (''profile.ts'', File ''export default h''),
        (''search.ts'', File ''export default h; export const loader = l'')]
       demo_generated"

text \<open>
  The scanned project with three more action files: one that does not parse, one with
  a loader in a subdirectory, and one in another \<^verbatim>\<open>server/actions\<close> directory of the
  project, outside its action root.
\<close>

definition layered_tree :: "(string \<times> entry) list \<Rightarrow> entry" where
  "layered_tree generated =
     Dir [(''proj'', Dir
       [(''server'', Dir
          [(''actions'', Dir
             (demo_actions @
              [(''broken.ts'', File ''export default''),
               (''admin'', Dir [(''stats.ts'', File ''export const loader = l'')])])),
           (''.loader'', Dir generated)]),
        (''layers'', Dir [(''base'', Dir [(''server'', Dir [(''actions'', Dir
           [(''ping.ts'', File ''export default h; export const loader = l'')])])])])])]"

definition faulty_state :: state where
  "faulty_state = scanned_state\<lparr>fs := layered_tree demo_generated\<rparr>"

definition search_deleted_fs :: entry where
  "search_deleted_fs =
     project_tree
       [(''login.ts'', File ''export default h''),
        (''profile.ts'', File ''export const loader = l'')]
       demo_generated"

section \<open>Facts about route derivation\<close>

lemma includes_sublist: "str_includes sub s = sublist sub s"
  by (induction s) (auto simp: sublist_Cons_right)

lemma lazy_group_hit:
  assumes "\<not> sublist ''.ts'' n" and "\<forall>c \<in> set n. \<not> is_line_terminator c"
  shows "lazy_group acc (n @ ''.ts'' @ suf) = Some (rev acc @ n)"
  using assms
proof (induction n arbitrary: acc)
  case Nil
  then show ?case by simp
next
  case (Cons c n)
  have np: "\<not> prefix ''.ts'' (c # n)"
    using Cons.prems(1) by (meson prefix_imp_sublist)
  have "\<not> prefix ''.ts'' ((c # n) @ ''.ts'' @ suf)"
  proof
    assume p: "prefix ''.ts'' ((c # n) @ ''.ts'' @ suf)"
    show False
    proof (cases n)
      case Nil
      with p show False by simp
    next
      case (Cons d n')
      note n = this
      show False
      proof (cases n')
        case Nil
        with p n show False by simp
      next
        case (Cons e n'')
        with p n np show False by simp
      qed
    qed
  qed
  moreover have "\<not> sublist ''.ts'' n"
    using Cons.prems(1) by (auto simp: sublist_Cons_right)
  ultimately show ?case
    using Cons.IH [of "c # acc"] Cons.prems(2) by simp
qed




lemma prefix_append_short:
  "length p \<le> length xs \<Longrightarrow> prefix p (xs @ ys) = prefix p xs"
  by (auto simp: prefix_append)

lemma actionRegex_exec_first:
  assumes "\<not> sublist ''actions/'' (pre @ ''actions'')"
    and "\<not> sublist ''.ts'' n" and "\<forall>c \<in> set n. \<not> is_line_terminator c"
  shows "actionRegex_exec (pre @ ''actions/'' @ n @ ''.ts'' @ suf) = Some n"
  using assms(1)
proof (induction pre)
  case Nil
  have "lazy_group [] (n @ ''.ts'' @ suf) = Some n"
    using lazy_group_hit [OF assms(2,3), of "[]" suf] by simp
  then show ?case by simp
next
  case (Cons c pre)
  have a: "\<not> sublist ''actions/'' (pre @ ''actions'')"
    using Cons.prems by (auto simp: sublist_Cons_right)
  have "\<not> prefix ''actions/'' (c # pre @ ''actions'')"
    using Cons.prems by (metis append_Cons prefix_imp_sublist)
  then have "\<not> prefix ''actions/'' ((c # pre @ ''actions'') @ ''/'' @ n @ ''.ts'' @ suf)"
    by (subst prefix_append_short) simp_all
  then have "\<not> prefix ''actions/'' (c # pre @ ''actions/'' @ n @ ''.ts'' @ suf)"
    by simp
  then show ?case
    using Cons.IH [OF a] by (simp del: Cons_prefix_Cons)
qed

lemma getActionRoute_first:
  assumes "\<not> str_includes ''actions/'' (pre @ ''actions'')" and "n \<noteq> []"
    and "\<not> str_includes ''.ts'' n" and "\<forall>c \<in> set n. \<not> is_line_terminator c"
  shows "getActionRoute (pre @ ''actions/'' @ n @ ''.ts'' @ suf) = Inr n"
  using actionRegex_exec_first [of pre n suf] assms
  by (simp add: getActionRoute_def includes_sublist)


section \<open>Route derivation against the action root\<close>




section \<open>The log of an incremental update\<close>

lemma settle_updateTemplates_fields [simp]:
  "fs (settle_updateTemplates eng st) = fs st"
  "nitro_handlers (settle_updateTemplates eng st) = nitro_handlers st"
  "serverHandlers (settle_updateTemplates eng st) = serverHandlers st"
  "serverLoaders (settle_updateTemplates eng st) = serverLoaders st"
  "loaderMap (settle_updateTemplates eng st) = loaderMap st"
  "templateUpdates (settle_updateTemplates eng st) = templateUpdates st"
  "logs (settle_updateTemplates eng st) = logs st"
  by (simp_all add: settle_updateTemplates_def split: option.splits)

lemma removeLoader_logs:
  "length (logs st) \<le> length (logs (removeLoaderFromServerLoader r st))"
  by (simp add: removeLoaderFromServerLoader_def Let_def)

lemma watch_try_out_of_scope:
  "\<not> str_includes ''server/actions'' p \<Longrightarrow> watch_try eng srcDir event p st = Inr st"
  by (simp add: watch_try_def)

lemma watch_try_logs_Inr:
  "str_includes ''server/actions'' p \<Longrightarrow> watch_try eng srcDir event p st = Inr st'
    \<Longrightarrow> length (logs st) < length (logs st')"
  by (auto simp: watch_try_def Let_def addServerHandler_def removeLoaderFromServerLoader_def
      split: sum.splits if_splits prod.splits)

lemma watch_try_logs_Inl:
  "watch_try eng srcDir event p st = Inl (e, st')
    \<Longrightarrow> length (logs st) < length (logs st')"
  by (auto simp: watch_try_def Let_def addServerHandler_def removeLoaderFromServerLoader_def
      split: sum.splits if_splits prod.splits)
section \<open>Reading back what was written\<close>

lemma update_dir_put_lookup:
  "update_dir ss (put_file nm g) e = Some e' \<Longrightarrow>
   lookup_entry (ss @ [nm]) e' =
     Some (File (g (case lookup_entry (ss @ [nm]) e of Some (File c) \<Rightarrow> Some c | _ \<Rightarrow> None)))"
proof (induction ss arbitrary: e e')
  case Nil
  then show ?case
    by (auto simp: put_file_def update_conv' split: entry.splits option.splits)
next
  case (Cons s ss)
  then show ?case
    by (auto simp: update_conv' split: entry.splits option.splits)
qed

lemma writeFile_readFile:
  assumes "writeFile root p c = Inr root'"
  shows "readFile root' p = Inr c"
proof -
  obtain s ss where sp: "split_path p = s # ss"
    using assms by (cases "split_path p") (auto simp: writeFile_def change_dir_def)
  then have "update_dir (butlast (s # ss)) (put_file (last (s # ss)) (\<lambda>_. c)) root = Some root'"
    using assms by (auto simp: writeFile_def change_dir_def split: option.splits)
  from update_dir_put_lookup [OF this]
  have "lookup_entry (s # ss) root' = Some (File c)"
    by (simp del: lookup_entry.simps butlast.simps last.simps)
  with sp show ?thesis by (simp add: readFile_def)
qed

lemma appendFile_readFile:
  assumes "appendFile root p c = Inr root'" and "readFile root p = Inr old"
  shows "readFile root' p = Inr (old @ c)"
proof -
  obtain s ss where sp: "split_path p = s # ss"
    using assms by (cases "split_path p") (auto simp: appendFile_def change_dir_def)
  then have "update_dir (butlast (s # ss))
      (put_file (last (s # ss)) (\<lambda>old. case old of None \<Rightarrow> c | Some x \<Rightarrow> x @ c)) root = Some root'"
    using assms by (auto simp: appendFile_def change_dir_def split: option.splits)
  from update_dir_put_lookup [OF this]
  have "lookup_entry (s # ss) root' =
    Some (File (case (case lookup_entry (s # ss) root of Some (File c) \<Rightarrow> Some c | _ \<Rightarrow> None) of
       None \<Rightarrow> c | Some x \<Rightarrow> x @ c))"
    by (simp del: lookup_entry.simps butlast.simps last.simps)
  moreover have "lookup_entry (s # ss) root = Some (File old)"
    using assms(2) sp by (auto simp: readFile_def split: option.splits entry.splits)
  ultimately show ?thesis using sp by (simp add: readFile_def)
qed

lemma writeLoader_content:
  assumes "writeLoader eng file loaderDir actionRoute root = Inr (h, root')"
  shows "h = loaderDir @ ''/'' @ actionRoute @ ''.ts'' \<and>
    (\<exists>code shaked. generateCode eng (promote_loader file) = Some code \<and>
       transform eng code = Some shaked \<and>
       readFile root' h = Inr (GENERATED_TEXT @ shaked))"
  using assms
  by (auto simp: writeLoader_def Let_def split: option.splits sum.splits
      dest!: writeFile_readFile intro: appendFile_readFile)


section \<open>The example project\<close>

text \<open>The full scan of the example project ends in \<open>scanned_state\<close>.\<close>

lemma nitro_config_demo: "nitro_config demo_engine ''/proj'' demo_state = Inr scanned_state"
  by code_simp

lemma reached_simps [simp]: "reached (Inl (e, st)) = st" "reached (Inr st) = st"
  by (simp_all add: reached_def)

section \<open>The name list and the entry map\<close>

lemma scan_action_names:
  assumes "set (serverLoaders st) \<subseteq> fst ` set (loaderMap st)"
  shows "set (serverLoaders (reached (scan_action eng d p st)))
    \<subseteq> fst ` set (loaderMap (reached (scan_action eng d p st)))"
  using assms
  by (auto simp: scan_action_def Let_def dom_update split: sum.splits prod.splits)

lemma scan_actions_names:
  "set (serverLoaders st) \<subseteq> fst ` set (loaderMap st) \<Longrightarrow>
   set (serverLoaders (reached (scan_actions eng d ps st)))
    \<subseteq> fst ` set (loaderMap (reached (scan_actions eng d ps st)))"
proof (induction ps arbitrary: st)
  case Nil
  then show ?case by simp
next
  case (Cons p ps)
  show ?case
  proof (cases "scan_action eng d p st")
    case (Inl x)
    with scan_action_names [OF Cons.prems, of eng d p] show ?thesis
      by (cases x) simp
  next
    case (Inr st')
    with scan_action_names [OF Cons.prems, of eng d p] have "set (serverLoaders st') \<subseteq> fst ` set (loaderMap st')"
      by simp
    from Cons.IH [OF this] Inr show ?thesis by simp
  qed
qed

lemma nitro_config_names:
  assumes "set (serverLoaders st) \<subseteq> fst ` set (loaderMap st)"
  shows "set (serverLoaders (reached (nitro_config eng srcDir st)))
    \<subseteq> fst ` set (loaderMap (reached (nitro_config eng srcDir st)))"
proof (cases "reset_loaderDirectory (loaderDirectory srcDir) (fs st)")
  case (Inl x)
  with assms show ?thesis by (cases x) (simp add: nitro_config_def)
next
  case (Inr root)
  note r = this
  show ?thesis
  proof (cases "walkFiles root (actionDirectoryPath srcDir)")
    case (Inl e)
    with r assms show ?thesis by (simp add: nitro_config_def)
  next
    case (Inr ps)
    have a: "set (serverLoaders (st\<lparr>fs := root\<rparr>)) \<subseteq> fst ` set (loaderMap (st\<lparr>fs := root\<rparr>))"
      using assms by simp
    show ?thesis
      using scan_actions_names [OF a, of eng "loaderDirectory srcDir" ps] r Inr
      by (cases "scan_actions eng (loaderDirectory srcDir) ps (st\<lparr>fs := root\<rparr>)")
         (auto simp: nitro_config_def addLoaderTypes_def)
  qed
qed

lemma removeLoader_names:
  "set (serverLoaders st) \<subseteq> fst ` set (loaderMap st) \<Longrightarrow>
   set (serverLoaders (removeLoaderFromServerLoader r st))
     \<subseteq> fst ` set (loaderMap (removeLoaderFromServerLoader r st))"
  by (auto simp: removeLoaderFromServerLoader_def Let_def)

lemma builder_watch_names:
  assumes "set (serverLoaders st) \<subseteq> fst ` set (loaderMap st)"
  shows "set (serverLoaders (builder_watch eng srcDir event p st))
    \<subseteq> fst ` set (loaderMap (builder_watch eng srcDir event p st))"
  using assms
  by (auto simp: builder_watch_def watch_try_def Let_def addServerHandler_def dom_update
      removeLoaderFromServerLoader_def split: sum.splits prod.splits if_splits)

lemma run_names:
  "set (serverLoaders st) \<subseteq> fst ` set (loaderMap st) \<Longrightarrow>
   set (serverLoaders (reached (run eng srcDir calls st)))
     \<subseteq> fst ` set (loaderMap (reached (run eng srcDir calls st)))"
proof (induction calls arbitrary: st)
  case Nil
  then show ?case by simp
next
  case (Cons c calls)
  show ?case
  proof (cases c)
    case NitroConfig
    show ?thesis
    proof (cases "nitro_config eng srcDir st")
      case (Inl x)
      with nitro_config_names [OF Cons.prems, of eng srcDir] NitroConfig show ?thesis
        by (cases x) simp
    next
      case (Inr st')
      with nitro_config_names [OF Cons.prems, of eng srcDir]
      have "set (serverLoaders st') \<subseteq> fst ` set (loaderMap st')" by simp
      from Cons.IH [OF this] Inr NitroConfig show ?thesis by simp
    qed
  next
    case (BuilderWatch event p)
    with Cons.IH [OF builder_watch_names [OF Cons.prems, of eng srcDir event p]]
    show ?thesis by simp
  next
    case (Edited root)
    have "set (serverLoaders (st\<lparr>fs := root\<rparr>)) \<subseteq> fst ` set (loaderMap (st\<lparr>fs := root\<rparr>))"
      using Cons.prems by simp
    from Cons.IH [OF this] Edited show ?thesis by simp
  qed
qed

text \<open>
  Claim C3, as amended. The module never deletes from \<^verbatim>\<open>loaderMap\<close>, so only one
  direction holds. After the set-up and every sequence of full scans, incremental
  events and outside edits of the files, whether a scan failed or not, every route in
  the published loader-name list has an entry in the loader entry map. The entry map
  may keep routes that the name list has lost.
\<close>

theorem loader_names_within_entry_map:
  assumes "module_setup srcDir root nitroHandlers hostHandlers = Inr st0"
  shows "set (serverLoaders (reached (run eng srcDir calls st0)))
    \<subseteq> fst ` set (loaderMap (reached (run eng srcDir calls st0)))"
proof -
  have "serverLoaders st0 = []"
    using assms by (auto simp: module_setup_def split: sum.splits if_splits)
  then have "set (serverLoaders st0) \<subseteq> fst ` set (loaderMap st0)"
    by simp
  then show ?thesis by (rule run_names)
qed

text \<open>
  The theorem on the example project: a full scan, then \<^verbatim>\<open>search.ts\<close> is deleted
  and the \<^verbatim>\<open>unlink\<close> event arrives.
\<close>

theorem loader_names_within_entry_map_witness:
  "module_setup ''/proj'' demo_fs [] [] = Inr demo_state \<and>
   set (serverLoaders (reached (run demo_engine ''/proj''
      [NitroConfig, Edited search_deleted_fs,
       BuilderWatch Unlink ''/proj/server/actions/search.ts''] demo_state)))
    \<subseteq> fst ` set (loaderMap (reached (run demo_engine ''/proj''
      [NitroConfig, Edited search_deleted_fs,
       BuilderWatch Unlink ''/proj/server/actions/search.ts''] demo_state)))"
proof -
  have s: "module_setup ''/proj'' demo_fs [] [] = Inr demo_state"
    by code_simp
  from s loader_names_within_entry_map [OF s] show ?thesis
    by (rule conjI)
qed

text \<open>
  Claim C3 as stated fails on that run: the name list has lost \<^verbatim>\<open>search\<close>, the
  entry map still holds it.
\<close>

theorem loader_names_consistent_counterexample:
  "serverLoaders (reached (run demo_engine ''/proj''
      [NitroConfig, Edited search_deleted_fs,
       BuilderWatch Unlink ''/proj/server/actions/search.ts''] demo_state)) = [''profile''] \<and>
   map fst (loaderMap (reached (run demo_engine ''/proj''
      [NitroConfig, Edited search_deleted_fs,
       BuilderWatch Unlink ''/proj/server/actions/search.ts''] demo_state)))
     = [''profile'', ''search'']"
  by code_simp

section \<open>Registrations of handlers\<close>




lemma removeLoader_serverHandlers [simp]:
  "serverHandlers (removeLoaderFromServerLoader r st) = serverHandlers st"
  by (simp add: removeLoaderFromServerLoader_def Let_def)

section \<open>Loader extraction\<close>

text \<open>
  Claim C8. Two extractions from byte-identical sources leave byte-identical
  generated files, banner included, whatever the two file systems held before and
  wherever the two generated files lie: the generated file is truncated before it is
  written, and its content depends on the parsed source alone. The parser, the
  printer and the dead-code pass are functions of their input in this model.
\<close>

theorem writeLoader_same_source_same_content:
  assumes "readFile root1 p1 = Inr src" and "readFile root2 p2 = Inr src"
    and "loadFile eng root1 p1 = Inr file1" and "loadFile eng root2 p2 = Inr file2"
    and "writeLoader eng file1 dir1 route1 root1 = Inr (h1, root1')"
    and "writeLoader eng file2 dir2 route2 root2 = Inr (h2, root2')"
  shows "readFile root1' h1 = readFile root2' h2"
proof -
  have "file1 = file2"
    using assms(1-4) by (auto simp: loadFile_def split: option.splits)
  with writeLoader_content [OF assms(5)] writeLoader_content [OF assms(6)]
  show ?thesis by auto
qed

text \<open>
  The theorem on the example project: \<^verbatim>\<open>profile.ts\<close> is extracted into the fresh
  loader directory, and once more under another route.
\<close>

theorem writeLoader_same_source_same_content_witness:
  "readFile (project_tree demo_actions [(''.gitignore'', File ''*'')])
     ''/proj/server/actions/profile.ts'' = Inr ''export const loader = l'' \<and>
   readFile (project_tree demo_actions (take 2 demo_generated))
     ''/proj/server/actions/profile.ts'' = Inr ''export const loader = l'' \<and>
   loadFile demo_engine (project_tree demo_actions [(''.gitignore'', File ''*'')])
     ''/proj/server/actions/profile.ts'' = Inr loader_only_module \<and>
   loadFile demo_engine (project_tree demo_actions (take 2 demo_generated))
     ''/proj/server/actions/profile.ts'' = Inr loader_only_module \<and>
   writeLoader demo_engine loader_only_module ''/proj/server/.loader'' ''profile''
     (project_tree demo_actions [(''.gitignore'', File ''*'')]) =
     Inr (''/proj/server/.loader/profile.ts'', project_tree demo_actions (take 2 demo_generated)) \<and>
   writeLoader demo_engine loader_only_module ''/proj/server/.loader'' ''copy''
     (project_tree demo_actions (take 2 demo_generated)) =
     Inr (''/proj/server/.loader/copy.ts'',
          project_tree demo_actions
            (take 2 demo_generated @
               [(''copy.ts'', File (GENERATED_TEXT @ ''export default fetch''))])) \<and>
   readFile (project_tree demo_actions (take 2 demo_generated)) ''/proj/server/.loader/profile.ts'' =
   readFile (project_tree demo_actions
       (take 2 demo_generated @ [(''copy.ts'', File (GENERATED_TEXT @ ''export default fetch''))]))
     ''/proj/server/.loader/copy.ts''"
proof -
  have r1: "readFile (project_tree demo_actions [(''.gitignore'', File ''*'')])
     ''/proj/server/actions/profile.ts'' = Inr ''export const loader = l''"
    by code_simp
  have r2: "readFile (project_tree demo_actions (take 2 demo_generated))
     ''/proj/server/actions/profile.ts'' = Inr ''export const loader = l''"
    by code_simp
  have l1: "loadFile demo_engine (project_tree demo_actions [(''.gitignore'', File ''*'')])
     ''/proj/server/actions/profile.ts'' = Inr loader_only_module"
    by code_simp
  have l2: "loadFile demo_engine (project_tree demo_actions (take 2 demo_generated))
     ''/proj/server/actions/profile.ts'' = Inr loader_only_module"
    by code_simp
  have w1: "writeLoader demo_engine loader_only_module ''/proj/server/.loader'' ''profile''
     (project_tree demo_actions [(''.gitignore'', File ''*'')]) =
     Inr (''/proj/server/.loader/profile.ts'', project_tree demo_actions (take 2 demo_generated))"
    by code_simp
  have w2: "writeLoader demo_engine loader_only_module ''/proj/server/.loader'' ''copy''
     (project_tree demo_actions (take 2 demo_generated)) =
     Inr (''/proj/server/.loader/copy.ts'',
          project_tree demo_actions
            (take 2 demo_generated @
               [(''copy.ts'', File (GENERATED_TEXT @ ''export default fetch''))]))"
    by code_simp
  from r1 r2 l1 l2 w1 w2 writeLoader_same_source_same_content [OF r1 r2 l1 l2 w1 w2]
  show ?thesis by (intro conjI)
qed

text \<open>
  Claim C9. For a module with both a primary and a loader export, the unit handed to
  the printer has the loader expression as its default export and no export named
  \<^verbatim>\<open>loader\<close>; the generated file holds the banner followed by the printed and
  shaken code of that unit. The former default export is overwritten without a test.
\<close>

theorem writeLoader_default_is_loader:
  assumes "map_of (exports file) ''default'' = Some d" and "map_of (exports file) ''loader'' = Some l"
    and "writeLoader eng file loaderDir actionRoute root = Inr (h, root')"
  shows "map_of (exports (promote_loader file)) ''default'' = Some l \<and>
    map_of (exports (promote_loader file)) ''loader'' = None \<and>
    (\<exists>code shaked. generateCode eng (promote_loader file) = Some code \<and>
       transform eng code = Some shaked \<and>
       readFile root' h = Inr (GENERATED_TEXT @ shaked))"
  using assms(1,2) writeLoader_content [OF assms(3)]
  by (auto simp: promote_loader_def update_conv' delete_conv')

text \<open>The theorem on \<^verbatim>\<open>search.ts\<close> of the example project, which has both exports.\<close>

theorem writeLoader_default_is_loader_witness:
  "map_of (exports both_module) ''default'' = Some ''handler'' \<and>
   map_of (exports both_module) ''loader'' = Some ''fetch'' \<and>
   writeLoader demo_engine both_module ''/proj/server/.loader'' ''search''
     (project_tree demo_actions (take 2 demo_generated)) =
     Inr (''/proj/server/.loader/search.ts'', project_tree demo_actions demo_generated) \<and>
   map_of (exports (promote_loader both_module)) ''default'' = Some ''fetch'' \<and>
   map_of (exports (promote_loader both_module)) ''loader'' = None \<and>
   readFile (project_tree demo_actions demo_generated) ''/proj/server/.loader/search.ts'' =
     Inr (GENERATED_TEXT @ ''export default fetch'')"
proof -
  have d: "map_of (exports both_module) ''default'' = Some ''handler''"
    by (simp add: both_module_def)
  have l: "map_of (exports both_module) ''loader'' = Some ''fetch''"
    by (simp add: both_module_def)
  have w: "writeLoader demo_engine both_module ''/proj/server/.loader'' ''search''
     (project_tree demo_actions (take 2 demo_generated)) =
     Inr (''/proj/server/.loader/search.ts'', project_tree demo_actions demo_generated)"
    by code_simp
  have g: "generateCode demo_engine (promote_loader both_module) = Some ''export default fetch''"
    by (simp add: demo_engine_def promote_loader_def both_module_def)
  have t: "transform demo_engine ''export default fetch'' = Some ''export default fetch''"
    by (simp add: demo_engine_def)
  from writeLoader_default_is_loader [OF d l w] d l w g t show ?thesis
    by simp
qed

section \<open>A loader in a subdirectory\<close>

text \<open>
  For an action file with a loader export only, the loop body appends one lazy GET
  registration under the loader prefix, provided the generated file could be written.
\<close>

lemma scan_action_loader_only:
  assumes "getActionRoute actionPath = Inr actionRoute"
    and "loadFile eng (fs st) actionPath = Inr file"
    and "map_of (exports file) ''default'' = None" and "map_of (exports file) ''loader'' = Some l"
    and "writeLoader eng file loaderDir actionRoute (fs st) = Inr (h, root)"
  shows "scan_action eng loaderDir actionPath st =
    Inr (st\<lparr>fs := root,
            nitro_handlers := nitro_handlers st @
              [\<lparr>http_method = Some GET, route = getLoaderRoute actionRoute, handler = h,
                lazy = True, formAction = False\<rparr>],
            serverLoaders := serverLoaders st @ [actionRoute],
            loaderMap := AList.update actionRoute
              \<lparr>name = actionRoute, filePath = h, url = getLoaderRoute actionRoute\<rparr>
              (loaderMap st),
            logs := logs st @
              [LoaderAdded actionRoute (getLoaderRoute actionRoute),
               LoaderTypeAdded actionRoute]\<rparr>)"
  using assms by (simp add: scan_action_def)

text \<open>
  Claim C1 fails on the code for an action file in a subdirectory. The route of
  \<^verbatim>\<open>actions/admin/stats.ts\<close> is \<^verbatim>\<open>admin/stats\<close>, the file parses and exports a
  loader only, but \<^verbatim>\<open>writeLoader\<close> writes to \<^verbatim>\<open>.loader/admin/stats.ts\<close> without
  making \<^verbatim>\<open>.loader/admin\<close>: the write fails, the full scan stops with that error,
  no GET route is registered and no file is generated.
\<close>

theorem nested_loader_scan_fails:
  "getActionRoute ''/proj/server/actions/admin/stats.ts'' = Inr ''admin/stats'' \<and>
   loadFile demo_engine nested_fs ''/proj/server/actions/admin/stats.ts'' = Inr loader_only_module \<and>
   (case nitro_config demo_engine ''/proj'' (demo_state\<lparr>fs := nested_fs\<rparr>) of
      Inl (e, st) \<Rightarrow>
        e = IOError ''/proj/server/.loader/admin/stats.ts'' \<and> nitro_handlers st = [] \<and>
        \<not> existsSync (fs st) ''/proj/server/.loader/admin/stats.ts''
    | Inr st \<Rightarrow> False)"
  by code_simp

section \<open>A loader export that disappears\<close>

text \<open>
  Claim C2, as amended. After an incremental event on an existing action file that
  parses and has no loader export, the published loader-name list is the old one
  without the file's route, and the file system is untouched, so the loader file
  generated before stays on disk. The loader entry map is untouched too and no
  regeneration of the declaration artifact is requested: its loader-name union,
  rendered from the entry map, keeps the name.
\<close>

theorem loader_removed_on_change:
  assumes "str_includes ''server/actions'' p" and "getActionRoute p = Inr actionRoute"
    and "existsSync (fs st) p" and "loadFile eng (fs st) p = Inr file"
    and "map_of (exports file) ''loader'' = None"
  shows "serverLoaders (builder_watch eng srcDir event p st) =
      filter (\<lambda>route. route \<noteq> actionRoute) (serverLoaders st) \<and>
    actionRoute \<notin> set (serverLoaders (builder_watch eng srcDir event p st)) \<and>
    fs (builder_watch eng srcDir event p st) = fs st \<and>
    loaderMap (builder_watch eng srcDir event p st) = loaderMap st \<and>
    templateUpdates (builder_watch eng srcDir event p st) = templateUpdates st"
proof -
  have f: "filter (\<lambda>route. route \<noteq> actionRoute) xs = xs" if "actionRoute \<notin> set xs" for xs
    using that by (induction xs) auto
  show ?thesis
    using assms f [of "serverLoaders st"]
    by (auto simp: builder_watch_def watch_try_def Let_def addServerHandler_def
        removeLoaderFromServerLoader_def)
qed

text \<open>
  The theorem on the scanned example project after \<^verbatim>\<open>profile.ts\<close> was edited to
  export a primary handler only.
\<close>

theorem loader_removed_on_change_witness:
  "str_includes ''server/actions'' ''/proj/server/actions/profile.ts'' \<and>
   getActionRoute ''/proj/server/actions/profile.ts'' = Inr ''profile'' \<and>
   existsSync (fs (scanned_state\<lparr>fs := profile_edited_fs\<rparr>)) ''/proj/server/actions/profile.ts'' \<and>
   loadFile demo_engine (fs (scanned_state\<lparr>fs := profile_edited_fs\<rparr>))
     ''/proj/server/actions/profile.ts'' = Inr handler_only_module \<and>
   map_of (exports handler_only_module) ''loader'' = None \<and>
   serverLoaders (builder_watch demo_engine ''/proj'' Change ''/proj/server/actions/profile.ts''
     (scanned_state\<lparr>fs := profile_edited_fs\<rparr>)) = [''search''] \<and>
   fs (builder_watch demo_engine ''/proj'' Change ''/proj/server/actions/profile.ts''
     (scanned_state\<lparr>fs := profile_edited_fs\<rparr>)) = profile_edited_fs \<and>
   readFile profile_edited_fs ''/proj/server/.loader/profile.ts'' =
     Inr (GENERATED_TEXT @ ''export default fetch'')"
proof -
  have i: "str_includes ''server/actions'' ''/proj/server/actions/profile.ts''"
    by code_simp
  have r: "getActionRoute ''/proj/server/actions/profile.ts'' = Inr ''profile''"
    by code_simp
  have x: "existsSync (fs (scanned_state\<lparr>fs := profile_edited_fs\<rparr>)) ''/proj/server/actions/profile.ts''"
    by code_simp
  have l: "loadFile demo_engine (fs (scanned_state\<lparr>fs := profile_edited_fs\<rparr>))
     ''/proj/server/actions/profile.ts'' = Inr handler_only_module"
    by code_simp
  have n: "map_of (exports handler_only_module) ''loader'' = None"
    by (simp add: handler_only_module_def)
  have g: "readFile profile_edited_fs ''/proj/server/.loader/profile.ts'' =
     Inr (GENERATED_TEXT @ ''export default fetch'')"
    by code_simp
  have s: "serverLoaders (scanned_state\<lparr>fs := profile_edited_fs\<rparr>) = [''profile'', ''search'']"
    by (simp add: scanned_state_def)
  from loader_removed_on_change [OF i r x l n, of "''/proj''" Change] i r x l n g s
  show ?thesis by simp
qed

text \<open>
  Claim C2 as stated fails there: the name list shrinks to \<^verbatim>\<open>search\<close>, but the
  loader-name union of the declaration artifact still reads
  \<^verbatim>\<open>"profile" | "search"\<close>, and no regeneration was requested.
\<close>

theorem declaration_union_shrinks_counterexample:
  "serverLoaders (builder_watch demo_engine ''/proj'' Change ''/proj/server/actions/profile.ts''
     (scanned_state\<lparr>fs := profile_edited_fs\<rparr>)) = [''search''] \<and>
   LoaderName_type (loaders (builder_watch demo_engine ''/proj'' Change
     ''/proj/server/actions/profile.ts'' (scanned_state\<lparr>fs := profile_edited_fs\<rparr>))) =
     ''type LoaderName = '' @ quoted ''profile'' @ '' | '' @ quoted ''search'' \<and>
   templateUpdates (builder_watch demo_engine ''/proj'' Change
     ''/proj/server/actions/profile.ts'' (scanned_state\<lparr>fs := profile_edited_fs\<rparr>)) =
     templateUpdates scanned_state"
  by code_simp


section \<open>Writes below the loader directory leave the action directory alone\<close>

lemma segments_slash:
  "segments acc (a @ CHR ''/'' # b) = segments acc a @ segments [] b"
  by (induction a arbitrary: acc) auto

lemma split_path_slash: "split_path (a @ ''/'' @ b) = split_path a @ split_path b"
  using segments_slash [of "[]" a b] by (simp add: split_path_def)

lemma split_path_loaderDirectory:
  "split_path (loaderDirectory srcDir @ rest) =
     split_path srcDir @ [''server''] @ split_path (''.loader'' @ rest)"
proof -
  have "loaderDirectory srcDir @ rest = srcDir @ ''/'' @ (''server'' @ ''/'' @ (''.loader'' @ rest))"
    by (simp add: loaderDirectory_def)
  then show ?thesis
    by (simp only: split_path_slash) (simp add: split_path_def)
qed

lemma split_path_actionDirectoryPath:
  "split_path (actionDirectoryPath srcDir @ rest) =
     split_path srcDir @ [''server''] @ split_path (''actions'' @ rest)"
proof -
  have "actionDirectoryPath srcDir @ rest = srcDir @ ''/'' @ (''server'' @ ''/'' @ (''actions'' @ rest))"
    by (simp add: actionDirectoryPath_def)
  then show ?thesis
    by (simp only: split_path_slash) (simp add: split_path_def)
qed

lemma update_dir_lookup_frame:
  assumes "update_dir ss f e = Some e'"
    and "\<And>es es' q. f es = Some es' \<Longrightarrow> q \<noteq> nm \<Longrightarrow> map_of es' q = map_of es q"
    and "\<not> prefix (ss @ [nm]) qs" and "\<not> prefix qs ss"
  shows "lookup_entry qs e' = lookup_entry qs e"
  using assms(1,3,4)
proof (induction ss arbitrary: qs e e')
  case Nil
  then obtain q qs' where qs: "qs = q # qs'" by (cases qs) auto
  with Nil have "q \<noteq> nm" by auto
  with Nil(1) qs assms(2) show ?case
    by (auto split: entry.splits)
next
  case (Cons s ss)
  then obtain q qs' where qs: "qs = q # qs'" by (cases qs) auto
  from Cons.prems(1) obtain es e1 e1' where e: "e = Dir es" "map_of es s = Some e1"
    "update_dir ss f e1 = Some e1'" "e' = Dir (AList.update s e1' es)"
    by (auto split: entry.splits option.splits)
  show ?case
  proof (cases "q = s")
    case True
    with Cons.prems qs have "\<not> prefix (ss @ [nm]) qs'" "\<not> prefix qs' ss" by auto
    from Cons.IH [OF e(3) this] True qs e show ?thesis
      by (simp add: update_conv')
  next
    case False
    with qs e show ?thesis by (simp add: update_conv')
  qed
qed

lemma change_dir_frame:
  assumes "change_dir root p f = Inr root'"
    and "\<And>nm es es' q. f nm es = Some es' \<Longrightarrow> q \<noteq> nm \<Longrightarrow> map_of es' q = map_of es q"
    and "\<not> prefix (split_path p) qs" and "\<not> prefix qs (split_path p)"
  shows "lookup_entry qs root' = lookup_entry qs root"
proof -
  obtain s ss where sp: "split_path p = s # ss"
    using assms(1) by (cases "split_path p") (auto simp: change_dir_def)
  then have u: "update_dir (butlast (s # ss)) (f (last (s # ss))) root = Some root'"
    using assms(1) by (auto simp: change_dir_def split: option.splits)
  have a: "\<not> prefix (butlast (s # ss) @ [last (s # ss)]) qs"
    using assms(3) sp by (simp del: butlast.simps last.simps)
  have b: "\<not> prefix qs (butlast (s # ss))"
    using assms(4) sp by (metis prefix_order.order_trans prefixeq_butlast)
  show ?thesis
    by (rule update_dir_lookup_frame [OF u _ a b]) (rule assms(2))
qed

lemma put_file_only:
  "put_file nm g es = Some es' \<Longrightarrow> q \<noteq> nm \<Longrightarrow> map_of es' q = map_of es q"
  by (auto simp: put_file_def update_conv' split: option.splits entry.splits)

lemma writeFile_frame:
  "writeFile root p c = Inr root' \<Longrightarrow> \<not> prefix (split_path p) qs \<Longrightarrow>
   \<not> prefix qs (split_path p) \<Longrightarrow> lookup_entry qs root' = lookup_entry qs root"
  unfolding writeFile_def by (erule change_dir_frame) (auto dest: put_file_only)

lemma appendFile_frame:
  "appendFile root p c = Inr root' \<Longrightarrow> \<not> prefix (split_path p) qs \<Longrightarrow>
   \<not> prefix qs (split_path p) \<Longrightarrow> lookup_entry qs root' = lookup_entry qs root"
  unfolding appendFile_def by (erule change_dir_frame) (auto dest: put_file_only)

lemma mkdir_frame:
  "mkdir root p = Inr root' \<Longrightarrow> \<not> prefix (split_path p) qs \<Longrightarrow>
   \<not> prefix qs (split_path p) \<Longrightarrow> lookup_entry qs root' = lookup_entry qs root"
  unfolding mkdir_def by (erule change_dir_frame) (auto simp: map_add_def split: option.splits)

lemma rm_recursive_frame:
  "rm_recursive root p = Inr root' \<Longrightarrow> \<not> prefix (split_path p) qs \<Longrightarrow>
   \<not> prefix qs (split_path p) \<Longrightarrow> lookup_entry qs root' = lookup_entry qs root"
  unfolding rm_recursive_def
  by (erule change_dir_frame) (auto simp: delete_conv' split: option.splits)

lemma segments_head:
  "acc \<noteq> [] \<Longrightarrow> \<exists>t ts. segments acc s = (rev acc @ t) # ts"
proof (induction s arbitrary: acc)
  case Nil
  then show ?case by simp
next
  case (Cons c s)
  show ?case
  proof (cases "c = CHR ''/''")
    case True
    with Cons.prems show ?thesis by simp
  next
    case False
    from Cons.IH [of "c # acc"] obtain t ts where "segments (c # acc) s = (rev (c # acc) @ t) # ts"
      by auto
    with False show ?thesis by simp
  qed
qed

lemma loader_actions_apart:
  "\<not> prefix (split_path (loaderDirectory srcDir @ x)) (split_path (actionDirectoryPath srcDir @ y)) \<and>
   \<not> prefix (split_path (actionDirectoryPath srcDir @ y)) (split_path (loaderDirectory srcDir @ x))"
proof -
  obtain t ts where l: "split_path (''.loader'' @ x) = (''.'' @ t) # ts"
    using segments_head [of "''.''" "''loader'' @ x"] by (auto simp: split_path_def)
  obtain t' ts' where a: "split_path (''actions'' @ y) = (''a'' @ t') # ts'"
    using segments_head [of "''a''" "''ctions'' @ y"] by (auto simp: split_path_def)
  show ?thesis
    unfolding split_path_loaderDirectory split_path_actionDirectoryPath l a by simp
qed

lemmas loader_not_above = loader_actions_apart [THEN conjunct1]
lemmas actions_not_above = loader_actions_apart [THEN conjunct2]

lemma reset_loaderDirectory_frame:
  assumes "reset_loaderDirectory (loaderDirectory srcDir) root = Inr root'"
  shows "lookup_entry (split_path (actionDirectoryPath srcDir @ y)) root' =
    lookup_entry (split_path (actionDirectoryPath srcDir @ y)) root"
proof -
  have ap: "\<not> prefix (split_path (loaderDirectory srcDir)) (split_path (actionDirectoryPath srcDir @ y))"
    "\<not> prefix (split_path (actionDirectoryPath srcDir @ y)) (split_path (loaderDirectory srcDir))"
    using loader_actions_apart [of srcDir "[]" y] by simp_all
  note ap2 = loader_not_above [of srcDir "''/.gitignore''" y]
    actions_not_above [of srcDir y "''/.gitignore''"]
  from assms obtain r1 r2 where
    r1: "(if existsSync root (loaderDirectory srcDir) then rm_recursive root (loaderDirectory srcDir)
         else Inr root) = Inr r1"
    and r2: "mkdir r1 (loaderDirectory srcDir) = Inr r2"
    and r3: "writeFile r2 (loaderDirectory srcDir @ ''/.gitignore'') ''*'' = Inr root'"
    by (auto simp: reset_loaderDirectory_def split: sum.splits)
  have "lookup_entry (split_path (actionDirectoryPath srcDir @ y)) r1 =
    lookup_entry (split_path (actionDirectoryPath srcDir @ y)) root"
    using r1 rm_recursive_frame [OF _ ap] by (auto split: if_splits)
  moreover have "lookup_entry (split_path (actionDirectoryPath srcDir @ y)) r2 =
    lookup_entry (split_path (actionDirectoryPath srcDir @ y)) r1"
    by (rule mkdir_frame [OF r2 ap])
  moreover have "lookup_entry (split_path (actionDirectoryPath srcDir @ y)) root' =
    lookup_entry (split_path (actionDirectoryPath srcDir @ y)) r2"
    by (rule writeFile_frame [OF r3 ap2])
  ultimately show ?thesis by simp
qed

lemma writeLoader_frame:
  assumes "writeLoader eng file (loaderDirectory srcDir) r root = Inr (h, root')"
  shows "lookup_entry (split_path (actionDirectoryPath srcDir @ y)) root' =
    lookup_entry (split_path (actionDirectoryPath srcDir @ y)) root"
proof -
  note ap = loader_not_above [of srcDir "''/'' @ r @ ''.ts''" y]
    actions_not_above [of srcDir y "''/'' @ r @ ''.ts''"]
  from assms obtain shaked r1 where
    w: "writeFile root (loaderDirectory srcDir @ ''/'' @ r @ ''.ts'') GENERATED_TEXT = Inr r1"
    and a: "appendFile r1 (loaderDirectory srcDir @ ''/'' @ r @ ''.ts'') shaked = Inr root'"
    by (auto simp: writeLoader_def Let_def split: option.splits sum.splits)
  from writeFile_frame [OF w ap] appendFile_frame [OF a ap] show ?thesis by simp
qed

lemma walk_entries_below:
  "p \<in> set (walk_entries dir es) \<Longrightarrow> \<exists>rest. p = dir @ ''/'' @ rest"
  by (induction dir es rule: walk_entries.induct) auto

lemma walkFiles_below:
  "walkFiles root (actionDirectoryPath srcDir) = Inr ps \<Longrightarrow> p \<in> set ps \<Longrightarrow>
   \<exists>rest. p = actionDirectoryPath srcDir @ rest"
  by (auto simp: walkFiles_def split: option.splits entry.splits dest!: walk_entries_below)

lemma walkFiles_reset:
  assumes "reset_loaderDirectory (loaderDirectory srcDir) root = Inr root'"
  shows "walkFiles root' (actionDirectoryPath srcDir) = walkFiles root (actionDirectoryPath srcDir)"
  using reset_loaderDirectory_frame [OF assms, of "[]"] by (simp add: walkFiles_def)


section \<open>The full scan of an action file with a primary export only\<close>

lemma scan_actions_append:
  "scan_actions eng d (xs @ ys) st =
     (case scan_actions eng d xs st of Inl x \<Rightarrow> Inl x | Inr s \<Rightarrow> scan_actions eng d ys s)"
  by (induction xs arbitrary: st) (auto split: sum.splits)

lemma scan_action_fs_frame:
  assumes "scan_action eng (loaderDirectory srcDir) p st = Inr st'"
  shows "lookup_entry (split_path (actionDirectoryPath srcDir @ y)) (fs st') =
    lookup_entry (split_path (actionDirectoryPath srcDir @ y)) (fs st)"
  using assms
  by (auto simp: scan_action_def Let_def split: sum.splits prod.splits if_splits
      dest: writeLoader_frame)

lemma scan_actions_fs_frame:
  "scan_actions eng (loaderDirectory srcDir) ps st = Inr st' \<Longrightarrow>
   lookup_entry (split_path (actionDirectoryPath srcDir @ y)) (fs st') =
    lookup_entry (split_path (actionDirectoryPath srcDir @ y)) (fs st)"
proof (induction ps arbitrary: st)
  case Nil
  then show ?case by simp
next
  case (Cons p ps)
  then obtain s where s: "scan_action eng (loaderDirectory srcDir) p st = Inr s"
    and r: "scan_actions eng (loaderDirectory srcDir) ps s = Inr st'"
    by (auto split: sum.splits)
  from Cons.IH [OF r] scan_action_fs_frame [OF s] show ?case by simp
qed

lemma loader_path_not_action_path:
  "loaderDirectory srcDir @ x \<noteq> actionDirectoryPath srcDir @ y"
  by (simp add: loaderDirectory_def actionDirectoryPath_def)

lemma scan_action_filter:
  assumes "scan_action eng (loaderDirectory srcDir) p st = Inr st'"
    and "p \<noteq> actionDirectoryPath srcDir @ rest"
  shows "filter (\<lambda>h. handler h = actionDirectoryPath srcDir @ rest) (nitro_handlers st') =
    filter (\<lambda>h. handler h = actionDirectoryPath srcDir @ rest) (nitro_handlers st)"
  using assms loader_path_not_action_path [of srcDir _ rest]
  by (auto simp: scan_action_def Let_def split: sum.splits prod.splits if_splits
      dest!: writeLoader_content)

lemma scan_actions_filter:
  "scan_actions eng (loaderDirectory srcDir) ps st = Inr st' \<Longrightarrow>
   actionDirectoryPath srcDir @ rest \<notin> set ps \<Longrightarrow>
   filter (\<lambda>h. handler h = actionDirectoryPath srcDir @ rest) (nitro_handlers st') =
    filter (\<lambda>h. handler h = actionDirectoryPath srcDir @ rest) (nitro_handlers st)"
proof (induction ps arbitrary: st)
  case Nil
  then show ?case by simp
next
  case (Cons p ps)
  then obtain s where s: "scan_action eng (loaderDirectory srcDir) p st = Inr s"
    and r: "scan_actions eng (loaderDirectory srcDir) ps s = Inr st'"
    by (auto split: sum.splits)
  from Cons.prems(2) have "p \<noteq> actionDirectoryPath srcDir @ rest"
    "actionDirectoryPath srcDir @ rest \<notin> set ps" by auto
  with Cons.IH [OF r] scan_action_filter [OF s] show ?case by simp
qed

lemma nitro_config_Inr:
  assumes "nitro_config eng srcDir st = Inr st'"
  obtains root ps s where "reset_loaderDirectory (loaderDirectory srcDir) (fs st) = Inr root"
    and "walkFiles root (actionDirectoryPath srcDir) = Inr ps"
    and "scan_actions eng (loaderDirectory srcDir) ps (st\<lparr>fs := root\<rparr>) = Inr s"
    and "st' = (addLoaderTypes s)\<lparr>logs := logs s @ [LoadersInConfig (serverLoaders s)]\<rparr>"
  using assms by (auto simp: nitro_config_def split: sum.splits prod.splits)

lemma scan_action_handler_only:
  assumes "getActionRoute actionPath = Inr actionRoute"
    and "loadFile eng (fs st) actionPath = Inr file"
    and "map_of (exports file) ''default'' = Some d" and "map_of (exports file) ''loader'' = None"
  shows "scan_action eng loaderDir actionPath st =
    Inr (st\<lparr>nitro_handlers := nitro_handlers st @
               [\<lparr>http_method = None, route = ''/'' @ actionRoute, handler = actionPath,
                 lazy = False, formAction = True\<rparr>],
             logs := logs st @ [FormActionAdded (''/'' @ actionRoute)]\<rparr>)"
  using assms by (simp add: scan_action_def)

text \<open>
  Claim C5, as amended. Take a full scan that succeeds and an action file that the
  walk yields once, that parses, and that has a primary export and no loader export.
  The scan adds exactly one registration backed by that file: at \<^verbatim>\<open>/<action-route>\<close>,
  flagged \<^verbatim>\<open>formAction\<close>, and naming no method, so it is not declared as POST. When
  the scan reaches the file, its turn adds that registration and changes nothing
  else: no file is written, and no loader name or entry is published.
\<close>

theorem full_scan_handler_only:
  assumes "nitro_config eng srcDir st = Inr st'"
    and "walkFiles (fs st) (actionDirectoryPath srcDir) = Inr (before @ actionPath # after)"
    and "actionPath \<notin> set before" and "actionPath \<notin> set after"
    and "getActionRoute actionPath = Inr actionRoute"
    and "loadFile eng (fs st) actionPath = Inr file"
    and "map_of (exports file) ''default'' = Some d" and "map_of (exports file) ''loader'' = None"
  shows "filter (\<lambda>h. handler h = actionPath) (nitro_handlers st') =
      filter (\<lambda>h. handler h = actionPath) (nitro_handlers st) @
        [\<lparr>http_method = None, route = ''/'' @ actionRoute, handler = actionPath,
          lazy = False, formAction = True\<rparr>] \<and>
    (\<exists>root s. reset_loaderDirectory (loaderDirectory srcDir) (fs st) = Inr root \<and>
       scan_actions eng (loaderDirectory srcDir) before (st\<lparr>fs := root\<rparr>) = Inr s \<and>
       scan_action eng (loaderDirectory srcDir) actionPath s =
         Inr (s\<lparr>nitro_handlers := nitro_handlers s @
                  [\<lparr>http_method = None, route = ''/'' @ actionRoute, handler = actionPath,
                    lazy = False, formAction = True\<rparr>],
                logs := logs s @ [FormActionAdded (''/'' @ actionRoute)]\<rparr>))"
proof -
  let ?ld = "loaderDirectory srcDir"
  let ?reg = "\<lparr>http_method = None, route = ''/'' @ actionRoute, handler = actionPath,
          lazy = False, formAction = True\<rparr>"
  from assms(1) obtain root ps s3 where
    reset: "reset_loaderDirectory ?ld (fs st) = Inr root"
    and walk: "walkFiles root (actionDirectoryPath srcDir) = Inr ps"
    and scan: "scan_actions eng ?ld ps (st\<lparr>fs := root\<rparr>) = Inr s3"
    and st': "st' = (addLoaderTypes s3)\<lparr>logs := logs s3 @ [LoadersInConfig (serverLoaders s3)]\<rparr>"
    by (rule nitro_config_Inr)
  have ps: "ps = before @ actionPath # after"
    using walk assms(2) walkFiles_reset [OF reset] by simp
  obtain rest where ap: "actionPath = actionDirectoryPath srcDir @ rest"
    using walkFiles_below [OF assms(2), of actionPath] by auto
  from scan ps obtain s1 where
    s1: "scan_actions eng ?ld before (st\<lparr>fs := root\<rparr>) = Inr s1"
    and tail: "scan_actions eng ?ld (actionPath # after) s1 = Inr s3"
    by (auto simp: scan_actions_append split: sum.splits)
  have "lookup_entry (split_path actionPath) (fs s1) = lookup_entry (split_path actionPath) (fs st)"
    using scan_actions_fs_frame [OF s1, of rest] reset_loaderDirectory_frame [OF reset, of rest] ap
    by simp
  then have "loadFile eng (fs s1) actionPath = Inr file"
    using assms(6) by (simp add: loadFile_def readFile_def)
  from scan_action_handler_only [OF assms(5) this assms(7,8), of ?ld]
  have turn: "scan_action eng ?ld actionPath s1 =
      Inr (s1\<lparr>nitro_handlers := nitro_handlers s1 @ [?reg],
              logs := logs s1 @ [FormActionAdded (''/'' @ actionRoute)]\<rparr>)" .
  with tail have after: "scan_actions eng ?ld after
      (s1\<lparr>nitro_handlers := nitro_handlers s1 @ [?reg],
          logs := logs s1 @ [FormActionAdded (''/'' @ actionRoute)]\<rparr>) = Inr s3"
    by simp
  have "filter (\<lambda>h. handler h = actionPath) (nitro_handlers s3) =
      filter (\<lambda>h. handler h = actionPath) (nitro_handlers s1) @ [?reg]"
    using scan_actions_filter [OF after, of rest] assms(4) ap by simp
  moreover have "filter (\<lambda>h. handler h = actionPath) (nitro_handlers s1) =
      filter (\<lambda>h. handler h = actionPath) (nitro_handlers st)"
    using scan_actions_filter [OF s1, of rest] assms(3) ap by simp
  moreover have "nitro_handlers st' = nitro_handlers s3"
    using st' by (simp add: addLoaderTypes_def)
  ultimately show ?thesis
    using reset s1 turn by auto
qed

text \<open>The theorem on \<^verbatim>\<open>login.ts\<close> in the full scan of the example project.\<close>

theorem full_scan_handler_only_witness:
  "nitro_config demo_engine ''/proj'' demo_state = Inr scanned_state \<and>
   walkFiles (fs demo_state) (actionDirectoryPath ''/proj'') =
     Inr ([] @ ''/proj/server/actions/login.ts'' #
          [''/proj/server/actions/profile.ts'', ''/proj/server/actions/search.ts'']) \<and>
   ''/proj/server/actions/login.ts'' \<notin> set [] \<and>
   ''/proj/server/actions/login.ts'' \<notin>
     set [''/proj/server/actions/profile.ts'', ''/proj/server/actions/search.ts''] \<and>
   getActionRoute ''/proj/server/actions/login.ts'' = Inr ''login'' \<and>
   loadFile demo_engine (fs demo_state) ''/proj/server/actions/login.ts'' = Inr handler_only_module \<and>
   map_of (exports handler_only_module) ''default'' = Some ''handler'' \<and>
   map_of (exports handler_only_module) ''loader'' = None \<and>
   filter (\<lambda>h. handler h = ''/proj/server/actions/login.ts'') (nitro_handlers scanned_state) =
     filter (\<lambda>h. handler h = ''/proj/server/actions/login.ts'') (nitro_handlers demo_state) @
       [\<lparr>http_method = None, route = ''/'' @ ''login'', handler = ''/proj/server/actions/login.ts'',
         lazy = False, formAction = True\<rparr>]"
proof -
  have c: "nitro_config demo_engine ''/proj'' demo_state = Inr scanned_state"
    by (rule nitro_config_demo)
  have w: "walkFiles (fs demo_state) (actionDirectoryPath ''/proj'') =
     Inr ([] @ ''/proj/server/actions/login.ts'' #
          [''/proj/server/actions/profile.ts'', ''/proj/server/actions/search.ts''])"
    by code_simp
  have b: "''/proj/server/actions/login.ts'' \<notin> set []"
    by simp
  have a: "''/proj/server/actions/login.ts'' \<notin>
     set [''/proj/server/actions/profile.ts'', ''/proj/server/actions/search.ts'']"
    by simp
  have r: "getActionRoute ''/proj/server/actions/login.ts'' = Inr ''login''"
    by code_simp
  have l: "loadFile demo_engine (fs demo_state) ''/proj/server/actions/login.ts'' =
      Inr handler_only_module"
    by code_simp
  have d: "map_of (exports handler_only_module) ''default'' = Some ''handler''"
    by (simp add: handler_only_module_def)
  have n: "map_of (exports handler_only_module) ''loader'' = None"
    by (simp add: handler_only_module_def)
  from full_scan_handler_only [OF c w b a r l d n] have
    "filter (\<lambda>h. handler h = ''/proj/server/actions/login.ts'') (nitro_handlers scanned_state) =
     filter (\<lambda>h. handler h = ''/proj/server/actions/login.ts'') (nitro_handlers demo_state) @
       [\<lparr>http_method = None, route = ''/'' @ ''login'', handler = ''/proj/server/actions/login.ts'',
         lazy = False, formAction = True\<rparr>]"
    by (rule conjunct1)
  with c w b a r l d n show ?thesis by (intro conjI)
qed

text \<open>
  Claim C5 as stated fails: the full scan of the example project leaves one
  registration backed by \<^verbatim>\<open>login.ts\<close>, and it has no method.
\<close>

theorem scan_handler_is_post_counterexample:
  "(case nitro_config demo_engine ''/proj'' demo_state of
      Inl x \<Rightarrow> False
    | Inr st \<Rightarrow>
        map http_method
          (filter (\<lambda>h. handler h = ''/proj/server/actions/login.ts'') (nitro_handlers st)) = [None])"
  by code_simp


section \<open>Method and path of the registrations\<close>







lemma builder_watch_nitro_handlers [simp]:
  "nitro_handlers (builder_watch eng srcDir event p st) = nitro_handlers st"
  by (auto simp: builder_watch_def watch_try_def Let_def addServerHandler_def
      removeLoaderFromServerLoader_def split: sum.splits prod.splits)












section \<open>Errors during an incremental update\<close>

text \<open>
  A rejected regeneration of the declarations is not an error of the \<^verbatim>\<open>try\<close>
  block: it is recorded as unhandled and no error is logged for it.
\<close>

lemma updateTemplates_rejection_escapes:
  assumes "str_includes ''server/actions'' p" and "getActionRoute p = Inr r"
    and "existsSync (fs st) p" and "loadFile eng (fs st) p = Inr file"
    and "map_of (exports file) ''loader'' = Some l"
    and "writeLoader eng file (loaderDirectory srcDir) r (fs st) = Inr (h, root)"
    and "r \<in> set (serverLoaders st)"
    and "updateTemplates eng (loaders st) = Some e"
  shows "unhandledRejections (builder_watch eng srcDir event p st) = unhandledRejections st @ [e] \<and>
    ErrorWhileHandling event e \<notin> set (drop (length (logs st)) (logs (builder_watch eng srcDir event p st)))"
  using assms
  by (auto simp: builder_watch_def watch_try_def Let_def addServerHandler_def
      settle_updateTemplates_def loaders_def)

text \<open>
  Claim C7, as amended. An error raised by route derivation, by loading or parsing
  the file, or by the loader extraction while an incremental event is handled is
  caught by the hook and logged, not propagated. After a failed route derivation or
  load the state is the old one with the event and the error logged: no removal of a
  loader entry is attempted. After a failed extraction the error is the last log
  entry, the loader-name list and the entry map are as before, and nothing is left
  unhandled.
\<close>

theorem builder_watch_catches:
  "(str_includes ''server/actions'' p1 \<and> getActionRoute p1 = Inl e1 \<longrightarrow>
      builder_watch eng srcDir event p1 st =
        st\<lparr>logs := logs st @ [Changed event p1, ErrorWhileHandling event e1]\<rparr>) \<and>
   (str_includes ''server/actions'' p2 \<and> getActionRoute p2 = Inr r2 \<and>
    existsSync (fs st) p2 \<and> loadFile eng (fs st) p2 = Inl e2 \<longrightarrow>
      builder_watch eng srcDir event p2 st =
        st\<lparr>logs := logs st @ [Changed event p2, ErrorWhileHandling event e2]\<rparr>) \<and>
   (str_includes ''server/actions'' p3 \<and> getActionRoute p3 = Inr r3 \<and>
    existsSync (fs st) p3 \<and> loadFile eng (fs st) p3 = Inr file \<and>
    map_of (exports file) ''loader'' = Some l \<and>
    writeLoader eng file (loaderDirectory srcDir) r3 (fs st) = Inl (e3, root) \<longrightarrow>
      last (logs (builder_watch eng srcDir event p3 st)) = ErrorWhileHandling event e3 \<and>
      fs (builder_watch eng srcDir event p3 st) = root \<and>
      serverLoaders (builder_watch eng srcDir event p3 st) = serverLoaders st \<and>
      loaderMap (builder_watch eng srcDir event p3 st) = loaderMap st \<and>
      unhandledRejections (builder_watch eng srcDir event p3 st) = unhandledRejections st)"
  by (auto simp: builder_watch_def watch_try_def Let_def addServerHandler_def)

text \<open>
  The theorem on the example project with three more files: an event on a path
  without \<^verbatim>\<open>.ts\<close>, one on a file that does not parse, and one on a loader in a
  subdirectory, whose generated file cannot be written.
\<close>

theorem builder_watch_catches_witness:
  "str_includes ''server/actions'' ''/proj/server/actions/profile'' \<and>
   getActionRoute ''/proj/server/actions/profile'' =
     Inl (RouteParseError ''/proj/server/actions/profile'') \<and>
   builder_watch demo_engine ''/proj'' Unlink ''/proj/server/actions/profile'' faulty_state =
     faulty_state\<lparr>logs := logs faulty_state @
       [Changed Unlink ''/proj/server/actions/profile'',
        ErrorWhileHandling Unlink (RouteParseError ''/proj/server/actions/profile'')]\<rparr> \<and>
   str_includes ''server/actions'' ''/proj/server/actions/broken.ts'' \<and>
   getActionRoute ''/proj/server/actions/broken.ts'' = Inr ''broken'' \<and>
   existsSync (fs faulty_state) ''/proj/server/actions/broken.ts'' \<and>
   loadFile demo_engine (fs faulty_state) ''/proj/server/actions/broken.ts'' = Inl ExtractionError \<and>
   builder_watch demo_engine ''/proj'' Unlink ''/proj/server/actions/broken.ts'' faulty_state =
     faulty_state\<lparr>logs := logs faulty_state @
       [Changed Unlink ''/proj/server/actions/broken.ts'',
        ErrorWhileHandling Unlink ExtractionError]\<rparr> \<and>
   str_includes ''server/actions'' ''/proj/server/actions/admin/stats.ts'' \<and>
   getActionRoute ''/proj/server/actions/admin/stats.ts'' = Inr ''admin/stats'' \<and>
   existsSync (fs faulty_state) ''/proj/server/actions/admin/stats.ts'' \<and>
   loadFile demo_engine (fs faulty_state) ''/proj/server/actions/admin/stats.ts'' =
     Inr loader_only_module \<and>
   map_of (exports loader_only_module) ''loader'' = Some ''fetch'' \<and>
   writeLoader demo_engine loader_only_module (loaderDirectory ''/proj'') ''admin/stats''
     (fs faulty_state) =
     Inl (IOError ''/proj/server/.loader/admin/stats.ts'', layered_tree demo_generated) \<and>
   last (logs (builder_watch demo_engine ''/proj'' Unlink ''/proj/server/actions/admin/stats.ts''
     faulty_state)) = ErrorWhileHandling Unlink (IOError ''/proj/server/.loader/admin/stats.ts'') \<and>
   serverLoaders (builder_watch demo_engine ''/proj'' Unlink
     ''/proj/server/actions/admin/stats.ts'' faulty_state) = serverLoaders faulty_state"
proof -
  have i1: "str_includes ''server/actions'' ''/proj/server/actions/profile''"
    by code_simp
  have r1: "getActionRoute ''/proj/server/actions/profile'' =
     Inl (RouteParseError ''/proj/server/actions/profile'')"
    by code_simp
  have i2: "str_includes ''server/actions'' ''/proj/server/actions/broken.ts''"
    by code_simp
  have r2: "getActionRoute ''/proj/server/actions/broken.ts'' = Inr ''broken''"
    by code_simp
  have x2: "existsSync (fs faulty_state) ''/proj/server/actions/broken.ts''"
    by code_simp
  have l2: "loadFile demo_engine (fs faulty_state) ''/proj/server/actions/broken.ts'' =
      Inl ExtractionError"
    by code_simp
  have i3: "str_includes ''server/actions'' ''/proj/server/actions/admin/stats.ts''"
    by code_simp
  have r3: "getActionRoute ''/proj/server/actions/admin/stats.ts'' = Inr ''admin/stats''"
    by code_simp
  have x3: "existsSync (fs faulty_state) ''/proj/server/actions/admin/stats.ts''"
    by code_simp
  have l3: "loadFile demo_engine (fs faulty_state) ''/proj/server/actions/admin/stats.ts'' =
     Inr loader_only_module"
    by code_simp
  have m3: "map_of (exports loader_only_module) ''loader'' = Some ''fetch''"
    by (simp add: loader_only_module_def)
  have w3: "writeLoader demo_engine loader_only_module (loaderDirectory ''/proj'') ''admin/stats''
     (fs faulty_state) =
     Inl (IOError ''/proj/server/.loader/admin/stats.ts'', layered_tree demo_generated)"
    by code_simp
  note inst = builder_watch_catches
    [where ?p1.0 = "''/proj/server/actions/profile''"
       and ?e1.0 = "RouteParseError ''/proj/server/actions/profile''"
       and eng = demo_engine and srcDir = "''/proj''" and event = Unlink and st = faulty_state
       and ?p2.0 = "''/proj/server/actions/broken.ts''" and ?r2.0 = "''broken''"
       and ?e2.0 = ExtractionError
       and ?p3.0 = "''/proj/server/actions/admin/stats.ts''" and ?r3.0 = "''admin/stats''"
       and ?file = loader_only_module and l = "''fetch''"
       and ?e3.0 = "IOError ''/proj/server/.loader/admin/stats.ts''"
       and root = "layered_tree demo_generated"]
  from inst i1 r1 have 1: "builder_watch demo_engine ''/proj'' Unlink ''/proj/server/actions/profile''
      faulty_state =
     faulty_state\<lparr>logs := logs faulty_state @
       [Changed Unlink ''/proj/server/actions/profile'',
        ErrorWhileHandling Unlink (RouteParseError ''/proj/server/actions/profile'')]\<rparr>"
    by blast
  from inst i2 r2 x2 l2 have 2: "builder_watch demo_engine ''/proj'' Unlink
      ''/proj/server/actions/broken.ts'' faulty_state =
     faulty_state\<lparr>logs := logs faulty_state @
       [Changed Unlink ''/proj/server/actions/broken.ts'',
        ErrorWhileHandling Unlink ExtractionError]\<rparr>"
    by blast
  from inst i3 r3 x3 l3 m3 w3 have 3: "last (logs (builder_watch demo_engine ''/proj'' Unlink
      ''/proj/server/actions/admin/stats.ts'' faulty_state)) =
      ErrorWhileHandling Unlink (IOError ''/proj/server/.loader/admin/stats.ts'')"
    "serverLoaders (builder_watch demo_engine ''/proj'' Unlink
     ''/proj/server/actions/admin/stats.ts'' faulty_state) = serverLoaders faulty_state"
    by blast+
  from i1 r1 1 i2 r2 x2 l2 2 i3 r3 x3 l3 m3 w3 3 show ?thesis by (intro conjI)
qed

text \<open>
  Claim C7 as stated fails there: \<^verbatim>\<open>profile\<close> is a known loader, route derivation
  fails on the path, and the loader is still in the name list and in the entry map
  after the event.
\<close>

theorem route_failure_removes_nothing_counterexample:
  "getActionRoute ''/proj/server/actions/profile'' =
     Inl (RouteParseError ''/proj/server/actions/profile'') \<and>
   serverLoaders scanned_state = [''profile'', ''search''] \<and>
   serverLoaders (builder_watch demo_engine ''/proj'' Unlink ''/proj/server/actions/profile''
     scanned_state) = [''profile'', ''search''] \<and>
   map fst (loaderMap (builder_watch demo_engine ''/proj'' Unlink ''/proj/server/actions/profile''
     scanned_state)) = [''profile'', ''search'']"
  by code_simp


section \<open>The scope test of the incremental updater\<close>

lemma builder_watch_changes:
  "builder_watch eng srcDir event p st \<noteq> st \<longleftrightarrow> str_includes ''server/actions'' p"
proof (cases "str_includes ''server/actions'' p")
  case False
  then show ?thesis
    by (simp add: builder_watch_def watch_try_out_of_scope)
next
  case True
  have "length (logs st) < length (logs (builder_watch eng srcDir event p st))"
  proof (cases "watch_try eng srcDir event p st")
    case (Inl x)
    obtain e st' where x: "x = (e, st')" by (cases x)
    with Inl watch_try_logs_Inl [of eng srcDir event p st e st'] show ?thesis
      by (simp add: builder_watch_def)
  next
    case (Inr st')
    with True watch_try_logs_Inr [of p eng srcDir event st st'] show ?thesis
      by (simp add: builder_watch_def)
  qed
  then have "builder_watch eng srcDir event p st \<noteq> st"
    by auto
  with True show ?thesis by simp
qed

lemma builder_watch_new_loader:
  assumes "str_includes ''server/actions'' p" and "getActionRoute p = Inr r"
    and "existsSync (fs st) p" and "loadFile eng (fs st) p = Inr file"
    and "map_of (exports file) ''loader'' = Some l"
    and "writeLoader eng file (loaderDirectory srcDir) r (fs st) = Inr (h, root)"
    and "\<not> list_ex (\<lambda>h. handler h = p) (serverHandlers st)"
    and "r \<notin> set (serverLoaders st)"
  shows "serverHandlers (builder_watch eng srcDir event p st) =
      serverHandlers st @
        [\<lparr>http_method = Some POST, route = ''/'' @ r, handler = normalize eng p,
          lazy = True, formAction = False\<rparr>] \<and>
    fs (builder_watch eng srcDir event p st) = root \<and>
    serverLoaders (builder_watch eng srcDir event p st) = serverLoaders st @ [r] \<and>
    loaderMap (builder_watch eng srcDir event p st) =
      AList.update r \<lparr>name = r, filePath = h, url = getLoaderRoute r\<rparr> (loaderMap st)"
  using assms
  by (simp add: builder_watch_def watch_try_def Let_def addServerHandler_def)

text \<open>
  Claim C10. An event is handled, and changes the state, exactly when its path
  contains \<^verbatim>\<open>server/actions\<close> somewhere; the source directory plays no part in the
  test. For such a path the hook works with the text between the first
  \<^verbatim>\<open>actions/\<close> of the path and the next \<^verbatim>\<open>.ts\<close> as the route, whatever directory
  comes before: for an existing file with a loader export, not yet known, it registers
  a POST handler at that route backed by the path, writes the loader to
  \<^verbatim>\<open><srcDir>/server/.loader/<route>.ts\<close> and publishes the route as a loader.
\<close>

theorem builder_watch_scope_is_substring:
  "(builder_watch eng srcDir event p st \<noteq> st \<longleftrightarrow> str_includes ''server/actions'' p) \<and>
   (str_includes ''server/actions'' (pre @ ''actions/'' @ n @ ''.ts'' @ suf) \<and>
    \<not> str_includes ''actions/'' (pre @ ''actions'') \<and> n \<noteq> [] \<and>
    \<not> str_includes ''.ts'' n \<and> \<not> list_ex is_line_terminator n \<and>
    existsSync (fs st') (pre @ ''actions/'' @ n @ ''.ts'' @ suf) \<and>
    loadFile eng (fs st') (pre @ ''actions/'' @ n @ ''.ts'' @ suf) = Inr file \<and>
    map_of (exports file) ''loader'' = Some l \<and>
    writeLoader eng file (loaderDirectory srcDir) n (fs st') = Inr (h, root) \<and>
    \<not> list_ex (\<lambda>h. handler h = pre @ ''actions/'' @ n @ ''.ts'' @ suf) (serverHandlers st') \<and>
    n \<notin> set (serverLoaders st')
      \<longrightarrow>
        serverHandlers (builder_watch eng srcDir event (pre @ ''actions/'' @ n @ ''.ts'' @ suf) st') =
          serverHandlers st' @
            [\<lparr>http_method = Some POST, route = ''/'' @ n,
              handler = normalize eng (pre @ ''actions/'' @ n @ ''.ts'' @ suf),
              lazy = True, formAction = False\<rparr>] \<and>
        h = loaderDirectory srcDir @ ''/'' @ n @ ''.ts'' \<and>
        fs (builder_watch eng srcDir event (pre @ ''actions/'' @ n @ ''.ts'' @ suf) st') = root \<and>
        serverLoaders (builder_watch eng srcDir event (pre @ ''actions/'' @ n @ ''.ts'' @ suf) st') =
          serverLoaders st' @ [n] \<and>
        loaderMap (builder_watch eng srcDir event (pre @ ''actions/'' @ n @ ''.ts'' @ suf) st') =
          AList.update n \<lparr>name = n, filePath = h, url = getLoaderRoute n\<rparr> (loaderMap st'))"
proof (intro conjI impI)
  show "builder_watch eng srcDir event p st \<noteq> st \<longleftrightarrow> str_includes ''server/actions'' p"
    by (rule builder_watch_changes)
next
  let ?p = "pre @ ''actions/'' @ n @ ''.ts'' @ suf"
  assume a: "str_includes ''server/actions'' ?p \<and>
    \<not> str_includes ''actions/'' (pre @ ''actions'') \<and> n \<noteq> [] \<and>
    \<not> str_includes ''.ts'' n \<and> \<not> list_ex is_line_terminator n \<and>
    existsSync (fs st') ?p \<and> loadFile eng (fs st') ?p = Inr file \<and>
    map_of (exports file) ''loader'' = Some l \<and>
    writeLoader eng file (loaderDirectory srcDir) n (fs st') = Inr (h, root) \<and>
    \<not> list_ex (\<lambda>h. handler h = ?p) (serverHandlers st') \<and>
    n \<notin> set (serverLoaders st')"
  then have r: "getActionRoute ?p = Inr n"
    by (intro getActionRoute_first) (simp_all add: list_ex_iff)
  from a have w: "writeLoader eng file (loaderDirectory srcDir) n (fs st') = Inr (h, root)"
    by simp
  have h: "h = loaderDirectory srcDir @ ''/'' @ n @ ''.ts''"
    using writeLoader_content [OF w] by simp
  have b: "serverHandlers (builder_watch eng srcDir event ?p st') =
      serverHandlers st' @
        [\<lparr>http_method = Some POST, route = ''/'' @ n, handler = normalize eng ?p,
          lazy = True, formAction = False\<rparr>] \<and>
    fs (builder_watch eng srcDir event ?p st') = root \<and>
    serverLoaders (builder_watch eng srcDir event ?p st') = serverLoaders st' @ [n] \<and>
    loaderMap (builder_watch eng srcDir event ?p st') =
      AList.update n \<lparr>name = n, filePath = h, url = getLoaderRoute n\<rparr> (loaderMap st')"
  proof (rule builder_watch_new_loader [OF _ r _ _ _ w])
    show "str_includes ''server/actions'' ?p" using a by simp
    show "existsSync (fs st') ?p" using a by simp
    show "loadFile eng (fs st') ?p = Inr file" using a by simp
    show "map_of (exports file) ''loader'' = Some l" using a by simp
    show "\<not> list_ex (\<lambda>h. handler h = ?p) (serverHandlers st')" using a by simp
    show "n \<notin> set (serverLoaders st')" using a by simp
  qed
  from b show "serverHandlers (builder_watch eng srcDir event ?p st') =
      serverHandlers st' @
        [\<lparr>http_method = Some POST, route = ''/'' @ n, handler = normalize eng ?p,
          lazy = True, formAction = False\<rparr>]" by simp
  from h show "h = loaderDirectory srcDir @ ''/'' @ n @ ''.ts''" .
  from b show "fs (builder_watch eng srcDir event ?p st') = root" by simp
  from b show "serverLoaders (builder_watch eng srcDir event ?p st') = serverLoaders st' @ [n]"
    by simp
  from b show "loaderMap (builder_watch eng srcDir event ?p st') =
      AList.update n \<lparr>name = n, filePath = h, url = getLoaderRoute n\<rparr> (loaderMap st')"
    by simp
qed

text \<open>
  The theorem on a file of the example project that lies in another
  \<^verbatim>\<open>server/actions\<close> directory, outside the action root of \<^verbatim>\<open>/proj\<close>.
\<close>

theorem builder_watch_scope_is_substring_witness:
  "\<not> prefix (actionDirectoryPath ''/proj'') ''/proj/layers/base/server/actions/ping.ts'' \<and>
   builder_watch demo_engine ''/proj'' Change ''/proj/layers/base/server/actions/ping.ts''
     faulty_state \<noteq> faulty_state \<and>
   str_includes ''server/actions'' (''/proj/layers/base/server/'' @ ''actions/'' @ ''ping'' @ ''.ts'' @ []) \<and>
   \<not> str_includes ''actions/'' (''/proj/layers/base/server/'' @ ''actions'') \<and> ''ping'' \<noteq> [] \<and>
   \<not> str_includes ''.ts'' ''ping'' \<and> \<not> list_ex is_line_terminator ''ping'' \<and>
   existsSync (fs faulty_state) (''/proj/layers/base/server/'' @ ''actions/'' @ ''ping'' @ ''.ts'' @ []) \<and>
   loadFile demo_engine (fs faulty_state)
     (''/proj/layers/base/server/'' @ ''actions/'' @ ''ping'' @ ''.ts'' @ []) = Inr both_module \<and>
   map_of (exports both_module) ''loader'' = Some ''fetch'' \<and>
   writeLoader demo_engine both_module (loaderDirectory ''/proj'') ''ping'' (fs faulty_state) =
     Inr (''/proj/server/.loader/ping.ts'',
          layered_tree (demo_generated @
            [(''ping.ts'', File (GENERATED_TEXT @ ''export default fetch''))])) \<and>
   \<not> list_ex (\<lambda>h. handler h = ''/proj/layers/base/server/'' @ ''actions/'' @ ''ping'' @ ''.ts'' @ [])
     (serverHandlers faulty_state) \<and>
   ''ping'' \<notin> set (serverLoaders faulty_state) \<and>
   serverHandlers (builder_watch demo_engine ''/proj'' Change
       ''/proj/layers/base/server/actions/ping.ts'' faulty_state) =
     [\<lparr>http_method = Some POST, route = ''/ping'',
       handler = ''/proj/layers/base/server/actions/ping.ts'', lazy = True, formAction = False\<rparr>] \<and>
   fs (builder_watch demo_engine ''/proj'' Change
       ''/proj/layers/base/server/actions/ping.ts'' faulty_state) =
     layered_tree (demo_generated @
        [(''ping.ts'', File (GENERATED_TEXT @ ''export default fetch''))]) \<and>
   serverLoaders (builder_watch demo_engine ''/proj'' Change
       ''/proj/layers/base/server/actions/ping.ts'' faulty_state) =
     [''profile'', ''search'', ''ping'']"
proof -
  let ?p = "''/proj/layers/base/server/'' @ ''actions/'' @ ''ping'' @ ''.ts'' @ []"
  let ?root = "layered_tree (demo_generated @
            [(''ping.ts'', File (GENERATED_TEXT @ ''export default fetch''))])"
  have o: "\<not> prefix (actionDirectoryPath ''/proj'') ''/proj/layers/base/server/actions/ping.ts''"
    by (simp add: actionDirectoryPath_def)
  have i: "str_includes ''server/actions'' ?p" by code_simp
  have f: "\<not> str_includes ''actions/'' (''/proj/layers/base/server/'' @ ''actions'')" by code_simp
  have n: "''ping'' \<noteq> []" by simp
  have t: "\<not> str_includes ''.ts'' ''ping''" by code_simp
  have z: "\<not> list_ex is_line_terminator ''ping''" by code_simp
  have x: "existsSync (fs faulty_state) ?p" by code_simp
  have l: "loadFile demo_engine (fs faulty_state) ?p = Inr both_module" by code_simp
  have m: "map_of (exports both_module) ''loader'' = Some ''fetch''"
    by (simp add: both_module_def)
  have w: "writeLoader demo_engine both_module (loaderDirectory ''/proj'') ''ping'' (fs faulty_state) =
     Inr (''/proj/server/.loader/ping.ts'', ?root)"
    by code_simp
  have e: "\<not> list_ex (\<lambda>h. handler h = ?p) (serverHandlers faulty_state)"
    by (simp add: faulty_state_def scanned_state_def)
  have s: "''ping'' \<notin> set (serverLoaders faulty_state)"
    by (simp add: faulty_state_def scanned_state_def)
  have sl: "serverLoaders faulty_state = [''profile'', ''search'']" "serverHandlers faulty_state = []"
    by (simp_all add: faulty_state_def scanned_state_def)
  have nz: "normalize demo_engine ''/proj/layers/base/server/actions/ping.ts'' =
      ''/proj/layers/base/server/actions/ping.ts''"
    by (simp add: demo_engine_def)
  note inst = builder_watch_scope_is_substring
    [where eng = demo_engine and srcDir = "''/proj''" and event = Change
       and p = "''/proj/layers/base/server/actions/ping.ts''" and st = faulty_state
       and pre = "''/proj/layers/base/server/''" and n = "''ping''" and suf = "[]"
       and ?st' = faulty_state and ?file = both_module and l = "''fetch''"
       and h = "''/proj/server/.loader/ping.ts''" and root = ?root]
  from inst i have 1: "builder_watch demo_engine ''/proj'' Change
      ''/proj/layers/base/server/actions/ping.ts'' faulty_state \<noteq> faulty_state"
    by simp
  from inst i f n t z x l m w e s have 2:
    "serverHandlers (builder_watch demo_engine ''/proj'' Change ?p faulty_state) =
       serverHandlers faulty_state @
         [\<lparr>http_method = Some POST, route = ''/'' @ ''ping'', handler = normalize demo_engine ?p,
           lazy = True, formAction = False\<rparr>]"
    "fs (builder_watch demo_engine ''/proj'' Change ?p faulty_state) = ?root"
    "serverLoaders (builder_watch demo_engine ''/proj'' Change ?p faulty_state) =
       serverLoaders faulty_state @ [''ping'']"
    by blast+
  from 2 sl nz have 3: "serverHandlers (builder_watch demo_engine ''/proj'' Change
       ''/proj/layers/base/server/actions/ping.ts'' faulty_state) =
     [\<lparr>http_method = Some POST, route = ''/ping'',
       handler = ''/proj/layers/base/server/actions/ping.ts'', lazy = True, formAction = False\<rparr>]"
    "fs (builder_watch demo_engine ''/proj'' Change
       ''/proj/layers/base/server/actions/ping.ts'' faulty_state) = ?root"
    "serverLoaders (builder_watch demo_engine ''/proj'' Change
       ''/proj/layers/base/server/actions/ping.ts'' faulty_state) =
     [''profile'', ''search'', ''ping'']"
    by simp_all
  from o 1 i f n t z x l m w e s 3 show ?thesis by (intro conjI)
qed


end
